theory Spec2Isabelle
  imports Complex_Main "HOL-Library.AList"
begin

section \<open>Python values and the built-in coercions the validators call\<close>

text \<open>
  The validators of \<^verbatim>\<open>backend/utils/validation.py\<close> receive already deserialised JSON:
  \<^verbatim>\<open>None\<close>, booleans, unbounded integers, floats, strings, lists and dictionaries with
  string keys. A dictionary is an association list in insertion order; a lookup reads the
  first entry of a key. The keys of a Python dictionary are distinct; the statements below
  hold for every association list.

  A float is an IEEE double: a finite value is the rational it denotes, and there are
  negative zero, the two infinities and NaN. Conversions to a float and products round to
  the nearest double, ties to even, as CPython does. A string is a list of code points
  below 256 (Latin-1). Conversions between integers and strings have CPython's default
  limit of 4300 digits.
\<close>

datatype pyfloat = Finite rat | NegZero | PosInf | NegInf | NaN

datatype pyval =
    PNone
  | PBool bool
  | PInt int
  | PFloat pyfloat
  | PStr string
  | PList "pyval list"
  | PDict "(string \<times> pyval) list"

text \<open>
  The exceptions that can leave the modelled functions. \<open>ValueError\<close> carries the message
  the source gives it.
\<close>

datatype error = TypeError | ValueError string | OverflowError

text \<open>Sequencing: the first exception ends the computation.\<close>

definition bind_err :: "error + 'a \<Rightarrow> ('a \<Rightarrow> error + 'b) \<Rightarrow> error + 'b" where
  "bind_err r f = (case r of Inl e \<Rightarrow> Inl e | Inr x \<Rightarrow> f x)"

subsection \<open>Characters and strings\<close>

text \<open>
  The white space that \<^verbatim>\<open>int\<close> and \<^verbatim>\<open>float\<close> skip at both ends of a string: the six
  ASCII characters, and the two Latin-1 spaces U+0085 and U+00A0, which CPython replaces
  by a blank before it parses. The separators U+001C to U+001F are not skipped.
\<close>

definition is_space :: "char \<Rightarrow> bool" where
  "is_space c = (of_char c \<in> {9, 10, 11, 12, 13, 32, 133, 160 :: nat})"

definition is_digit :: "char \<Rightarrow> bool" where
  "is_digit c = (48 \<le> (of_char c :: nat) \<and> (of_char c :: nat) \<le> 57)"

definition digit_val :: "char \<Rightarrow> int" where
  "digit_val c = of_char c - 48"

text \<open>
  The capitals of Latin-1 are A to Z, U+00C0 to U+00D6 and U+00D8 to U+00DE; the small
  letter of each is 32 above it, so bit 5 of the code is set.
\<close>

definition is_upper :: "char \<Rightarrow> bool" where
  "is_upper c =
     (let n = (of_char c :: nat)
      in (65 \<le> n \<and> n \<le> 90) \<or> (192 \<le> n \<and> n \<le> 214) \<or> (216 \<le> n \<and> n \<le> 222))"

definition lower_char :: "char \<Rightarrow> char" where
  "lower_char c =
     (if is_upper c
      then Char (digit0 c) (digit1 c) (digit2 c) (digit3 c) (digit4 c) True (digit6 c) (digit7 c)
      else c)"

text \<open>\<^verbatim>\<open>s.lower()\<close>\<close>

definition lower :: "string \<Rightarrow> string" where
  "lower s = map lower_char s"

text \<open>The string without the white space at its ends.\<close>

definition strip_space :: "string \<Rightarrow> string" where
  "strip_space s = rev (dropWhile is_space (rev (dropWhile is_space s)))"

text \<open>
  The leading run of decimal digits of a string, and what follows it. A single underscore
  is skipped when it stands between two digits, as Python's numeric literals allow.
\<close>

fun digit_run :: "string \<Rightarrow> int list \<times> string" where
  "digit_run [] = ([], [])"
| "digit_run [c] = (if is_digit c then ([digit_val c], []) else ([], [c]))"
| "digit_run (c # u # cs) =
     (if is_digit c then
        (case (if u = CHR ''_'' \<and> cs \<noteq> [] \<and> is_digit (hd cs)
               then digit_run cs else digit_run (u # cs)) of
           (ds, r) \<Rightarrow> (digit_val c # ds, r))
      else ([], c # u # cs))"

definition num_of_digits :: "int list \<Rightarrow> int" where
  "num_of_digits ds = foldl (\<lambda>a d. 10 * a + d) 0 ds"

text \<open>An optional sign: the factor it stands for and the rest of the string.\<close>

fun split_sign :: "string \<Rightarrow> int \<times> string" where
  "split_sign [] = (1, [])"
| "split_sign (c # cs) =
     (if c = CHR ''-'' then (-1, cs) else if c = CHR ''+'' then (1, cs) else (1, c # cs))"

text \<open>
  \<^verbatim>\<open>sys.get_int_max_str_digits()\<close>: a decimal string of more digits is not converted to
  an integer, nor an integer of more digits to a string.
\<close>

definition INT_MAX_STR_DIGITS :: nat where
  "INT_MAX_STR_DIGITS = 4300"

text \<open>\<^verbatim>\<open>int(s)\<close> on a string, base 10: \<open>None\<close> where Python raises \<open>ValueError\<close>.\<close>

definition int_of_str :: "string \<Rightarrow> int option" where
  "int_of_str s =
     (case split_sign (strip_space s) of (sg, body) \<Rightarrow>
        (case digit_run body of (ds, r) \<Rightarrow>
           if ds \<noteq> [] \<and> r = [] \<and> length ds \<le> INT_MAX_STR_DIGITS
           then Some (sg * num_of_digits ds) else None))"

subsection \<open>Floats\<close>

text \<open>Integer powers of a base, and the integer logarithm of a positive rational.\<close>

definition ipow :: "nat \<Rightarrow> int \<Rightarrow> rat" where
  "ipow b e = (if 0 \<le> e then of_nat b ^ nat e else 1 / of_nat b ^ nat (- e))"

function floor_log :: "nat \<Rightarrow> rat \<Rightarrow> int" where
  "floor_log b a = (if a < of_nat b \<or> b < 2 then 0 else 1 + floor_log b (a / of_nat b))"
  by pat_completeness auto
termination
proof (relation "measure (\<lambda>(b, a). nat \<lfloor>a\<rfloor>)")
  show "wf (measure (\<lambda>(b, a). nat \<lfloor>a\<rfloor>))" by simp
next
  fix b :: nat and a :: rat
  assume "\<not> (a < of_nat b \<or> b < 2)"
  then have b: "2 \<le> b" and ab: "of_nat b \<le> a" by simp_all
  from b have b2: "(2::rat) \<le> of_nat b" by simp
  with ab have a2: "2 \<le> a" by simp
  have "a / of_nat b \<le> a / 2"
    using b2 a2 by (intro divide_left_mono) simp_all
  also have "\<dots> \<le> a - 1" using a2 by simp
  finally have "\<lfloor>a / of_nat b\<rfloor> \<le> \<lfloor>a - 1\<rfloor>" by (rule floor_mono)
  then have "\<lfloor>a / of_nat b\<rfloor> < \<lfloor>a\<rfloor>" by simp
  moreover have "0 < \<lfloor>a\<rfloor>" using a2 by simp
  ultimately show "((b, a / of_nat b), (b, a)) \<in> measure (\<lambda>(b, a). nat \<lfloor>a\<rfloor>)"
    by simp
qed

declare floor_log.simps [simp del]

text \<open>\<open>ilog b a\<close> is the \<open>k\<close> with \<open>b ^ k \<le> a < b ^ (k + 1)\<close>, for \<open>a > 0\<close>.\<close>

definition ilog :: "nat \<Rightarrow> rat \<Rightarrow> int" where
  "ilog b a =
     (if 1 \<le> a then floor_log b a
      else (let k = floor_log b (1 / a)
            in if ipow b k = 1 / a then - k else - k - 1))"

definition round_half_even :: "rat \<Rightarrow> int" where
  "round_half_even q =
     (let f = \<lfloor>q\<rfloor>; d = q - of_int f
      in if d < 1 / 2 then f else if 1 / 2 < d then f + 1 else if even f then f else f + 1)"

text \<open>
  The least magnitude that rounds to an infinite double: half an ulp above the largest
  finite one.
\<close>

definition dbl_overflow :: rat where
  "dbl_overflow = 2 ^ 1024 - 2 ^ 970"

text \<open>
  The double nearest to a rational, ties to even: the mantissa has 53 bits, the exponent of
  its last bit is at least \<open>-1074\<close>. A magnitude at or above \<open>dbl_overflow\<close> becomes an
  infinity, and a negative value that rounds to zero becomes negative zero.
\<close>

definition round_double :: "rat \<Rightarrow> pyfloat" where
  "round_double q =
     (let a = \<bar>q\<bar> in
      if dbl_overflow \<le> a then (if 0 < q then PosInf else NegInf)
      else
        (let e = (if a < ipow 2 (- 1022) then - 1074 else ilog 2 a - 52);
             m = round_half_even (a / ipow 2 e)
         in if m = 0 then (if q < 0 then NegZero else Finite 0)
            else Finite ((if q < 0 then - 1 else 1) * of_int m * ipow 2 e)))"

text \<open>\<^verbatim>\<open>-x\<close> on floats.\<close>

definition float_neg :: "pyfloat \<Rightarrow> pyfloat" where
  "float_neg f =
     (case f of
        Finite x \<Rightarrow> (if x = 0 then NegZero else Finite (- x))
      | NegZero \<Rightarrow> Finite 0
      | PosInf \<Rightarrow> NegInf
      | NegInf \<Rightarrow> PosInf
      | NaN \<Rightarrow> NaN)"

text \<open>
  \<^verbatim>\<open>float(s)\<close> on a string: \<open>None\<close> where Python raises \<open>ValueError\<close>. The accepted
  forms are \<open>inf\<close>, \<open>infinity\<close> and \<open>nan\<close> in any case, and decimal numbers with an
  optional fraction and exponent, each with an optional sign and surrounding white space.
  The value of a decimal number is rounded to the nearest double.
\<close>

definition float_of_str :: "string \<Rightarrow> pyfloat option" where
  "float_of_str s =
     (case split_sign (strip_space s) of (sg, body) \<Rightarrow>
        map_option (\<lambda>f. if sg < 0 then float_neg f else f)
          (if lower body = ''inf'' \<or> lower body = ''infinity'' then Some PosInf
           else if lower body = ''nan'' then Some NaN
           else
             (case digit_run body of (ip, r1) \<Rightarrow>
                (case (if r1 \<noteq> [] \<and> hd r1 = CHR ''.'' then digit_run (tl r1) else ([], r1)) of
                   (fp, r2) \<Rightarrow>
                     if ip = [] \<and> fp = [] then None
                     else
                       (let m = of_int (num_of_digits (ip @ fp)) * ipow 10 (- int (length fp))
                        in if r2 = [] then Some (round_double m)
                           else if hd r2 = CHR ''e'' \<or> hd r2 = CHR ''E'' then
                             (case split_sign (tl r2) of (esg, r3) \<Rightarrow>
                                (case digit_run r3 of (ep, r4) \<Rightarrow>
                                   if ep \<noteq> [] \<and> r4 = []
                                   then Some (round_double
                                                (m * ipow 10 (esg * num_of_digits ep)))
                                   else None))
                           else None)))))"

text \<open>\<^verbatim>\<open>int(x)\<close> on a float truncates towards zero; it raises on the special values.\<close>

definition int_of_float :: "pyfloat \<Rightarrow> error + int" where
  "int_of_float f =
     (case f of
        Finite q \<Rightarrow> Inr (if 0 \<le> q then \<lfloor>q\<rfloor> else \<lceil>q\<rceil>)
      | NegZero \<Rightarrow> Inr 0
      | NaN \<Rightarrow> Inl (ValueError ''cannot convert float NaN to integer'')
      | _ \<Rightarrow> Inl OverflowError)"

text \<open>The sign bit and the magnitude of a float that is not NaN or infinite.\<close>

definition sign_bit :: "pyfloat \<Rightarrow> bool" where
  "sign_bit f = (case f of Finite x \<Rightarrow> x < 0 | NegZero \<Rightarrow> True | NegInf \<Rightarrow> True | _ \<Rightarrow> False)"

definition magnitude :: "pyfloat \<Rightarrow> rat option" where
  "magnitude f = (case f of Finite x \<Rightarrow> Some \<bar>x\<bar> | NegZero \<Rightarrow> Some 0 | _ \<Rightarrow> None)"

text \<open>
  \<^verbatim>\<open>a * b\<close> on floats: the exact product of two finite values is rounded to the nearest
  double; the sign of the result is the exclusive or of the signs.
\<close>

definition float_mul :: "pyfloat \<Rightarrow> pyfloat \<Rightarrow> pyfloat" where
  "float_mul a b =
     (if a = NaN \<or> b = NaN then NaN
      else
        (let r = (case (magnitude a, magnitude b) of
                    (Some x, Some y) \<Rightarrow> round_double (x * y)
                  | (Some x, None) \<Rightarrow> (if x = 0 then NaN else PosInf)
                  | (None, Some y) \<Rightarrow> (if y = 0 then NaN else PosInf)
                  | (None, None) \<Rightarrow> PosInf)
         in if sign_bit a \<noteq> sign_bit b then float_neg r else r))"

subsection \<open>The built-ins \<^verbatim>\<open>bool\<close>, \<^verbatim>\<open>int\<close> and \<^verbatim>\<open>float\<close>\<close>

text \<open>Truthiness, as \<^verbatim>\<open>bool(x)\<close>, \<^verbatim>\<open>not x\<close> and \<^verbatim>\<open>x or y\<close> read it.\<close>

fun py_bool :: "pyval \<Rightarrow> bool" where
  "py_bool PNone = False"
| "py_bool (PBool b) = b"
| "py_bool (PInt n) = (n \<noteq> 0)"
| "py_bool (PFloat f) = (f \<noteq> Finite 0 \<and> f \<noteq> NegZero)"
| "py_bool (PStr s) = (s \<noteq> [])"
| "py_bool (PList xs) = (xs \<noteq> [])"
| "py_bool (PDict d) = (d \<noteq> [])"

fun py_int :: "pyval \<Rightarrow> error + int" where
  "py_int (PInt n) = Inr n"
| "py_int (PBool b) = Inr (if b then 1 else 0)"
| "py_int (PFloat f) = int_of_float f"
| "py_int (PStr s) =
     (case int_of_str s of
        Some n \<Rightarrow> Inr n
      | None \<Rightarrow> Inl (ValueError ''invalid literal for int() with base 10''))"
| "py_int _ = Inl TypeError"

text \<open>
  \<^verbatim>\<open>float(x)\<close>. An integer is rounded to the nearest double and raises \<open>OverflowError\<close>
  when that is infinite.
\<close>

fun py_float :: "pyval \<Rightarrow> error + pyfloat" where
  "py_float (PFloat f) = Inr f"
| "py_float (PInt n) =
     (if dbl_overflow \<le> \<bar>of_int n\<bar> then Inl OverflowError else Inr (round_double (of_int n)))"
| "py_float (PBool b) = Inr (Finite (if b then 1 else 0))"
| "py_float (PStr s) =
     (case float_of_str s of
        Some f \<Rightarrow> Inr f
      | None \<Rightarrow> Inl (ValueError ''could not convert string to float''))"
| "py_float _ = Inl TypeError"

subsection \<open>The built-ins \<^verbatim>\<open>repr\<close> and \<^verbatim>\<open>str\<close>\<close>

text \<open>The decimal digits of a natural number, given as an integer.\<close>

definition digit_char :: "int \<Rightarrow> char" where
  "digit_char n = ''0123456789'' ! nat (n mod 10)"

function dec_digits :: "int \<Rightarrow> string" where
  "dec_digits n = (if n < 10 then [digit_char n] else dec_digits (n div 10) @ [digit_char n])"
  by pat_completeness auto
termination
  by (relation "measure nat") auto

declare dec_digits.simps [simp del]

definition E_int_limit :: string where
  "E_int_limit = ''Exceeds the limit (4300 digits) for integer string conversion''"

text \<open>\<^verbatim>\<open>repr\<close> of an integer raises when it has more digits than the limit.\<close>

definition int_repr :: "int \<Rightarrow> error + string" where
  "int_repr n =
     (if (10::int) ^ INT_MAX_STR_DIGITS \<le> \<bar>n\<bar> then Inl (ValueError E_int_limit)
      else Inr ((if n < 0 then ''-'' else []) @ dec_digits \<bar>n\<bar>))"

text \<open>
  \<^verbatim>\<open>repr\<close> of a float gives the shortest decimal digits that read back as the same
  double, and among those the nearest to it. \<open>shortest_try a k n\<close> looks among the numbers
  of \<open>n\<close> digits for a magnitude \<open>a\<close> with \<open>10 ^ k \<le> a < 10 ^ (k + 1)\<close>: only the two
  that enclose \<open>a\<close> can read back as \<open>a\<close>. Seventeen digits always suffice for a double.
\<close>

definition shortest_try :: "rat \<Rightarrow> int \<Rightarrow> nat \<Rightarrow> int option" where
  "shortest_try a k n =
     (let s = ipow 10 (k - int n + 1);
          lo = \<lfloor>a / s\<rfloor>;
          hi = lo + 1;
          ok_lo = (round_double (of_int lo * s) = Finite a);
          ok_hi = (round_double (of_int hi * s) = Finite a);
          d_lo = a - of_int lo * s;
          d_hi = of_int hi * s - a
      in if ok_lo \<and> ok_hi then Some (if d_lo < d_hi \<or> (d_lo = d_hi \<and> even lo) then lo else hi)
         else if ok_lo then Some lo
         else if ok_hi then Some hi
         else None)"

fun shortest_search :: "rat \<Rightarrow> int \<Rightarrow> nat \<Rightarrow> nat \<Rightarrow> int \<times> nat" where
  "shortest_search a k 0 n = (round_half_even (a / ipow 10 (k - int n + 1)), n)"
| "shortest_search a k (Suc fuel) n =
     (case shortest_try a k n of
        Some c \<Rightarrow> (c, n)
      | None \<Rightarrow> shortest_search a k fuel (Suc n))"

text \<open>
  The digits of a positive magnitude without trailing zeros, and the position of the
  decimal point relative to their start.
\<close>

definition strip_zeros :: "string \<Rightarrow> string" where
  "strip_zeros ds = rev (dropWhile (\<lambda>c. c = CHR ''0'') (rev ds))"

definition shortest_digits :: "rat \<Rightarrow> string \<times> int" where
  "shortest_digits a =
     (let k = ilog 10 a in
      case shortest_search a k 17 1 of
        (c, n) \<Rightarrow>
          (let ds = dec_digits c
           in (strip_zeros ds, k + 1 + (int (length ds) - int n))))"

text \<open>
  The layout of \<^verbatim>\<open>repr\<close>: exponent notation when the decimal point is more than 16 places
  to the right of the first digit or more than 3 to its left, with an exponent of at least
  two digits; positional notation otherwise, with \<open>.0\<close> after an integral value.
\<close>

definition format_repr :: "string \<Rightarrow> int \<Rightarrow> string" where
  "format_repr ds decpt =
     (if decpt \<le> - 4 \<or> 16 < decpt then
        (let x = dec_digits \<bar>decpt - 1\<bar>
         in hd ds # (if tl ds = [] then [] else ''.'' @ tl ds)
            @ ''e'' @ (if decpt - 1 < 0 then ''-'' else ''+'')
            @ (if length x < 2 then ''0'' @ x else x))
      else if decpt \<le> 0 then ''0.'' @ replicate (nat (- decpt)) (CHR ''0'') @ ds
      else if int (length ds) \<le> decpt
           then ds @ replicate (nat (decpt - int (length ds))) (CHR ''0'') @ ''.0''
      else take (nat decpt) ds @ ''.'' @ drop (nat decpt) ds)"

definition float_repr :: "pyfloat \<Rightarrow> string" where
  "float_repr f =
     (case f of
        NaN \<Rightarrow> ''nan''
      | PosInf \<Rightarrow> ''inf''
      | NegInf \<Rightarrow> ''-inf''
      | NegZero \<Rightarrow> ''-0.0''
      | Finite q \<Rightarrow>
          (if q = 0 then ''0.0''
           else (case shortest_digits \<bar>q\<bar> of
                   (ds, decpt) \<Rightarrow> (if q < 0 then ''-'' else []) @ format_repr ds decpt)))"

text \<open>
  \<^verbatim>\<open>repr\<close> of a string: in single quotes, or in double quotes when it holds a single quote
  and no double quote; the quote, the backslash and the characters that are not printable
  are escaped.
\<close>

definition hex_char :: "nat \<Rightarrow> char" where
  "hex_char n = ''0123456789abcdef'' ! (n mod 16)"

definition repr_char :: "char \<Rightarrow> char \<Rightarrow> string" where
  "repr_char q c =
     (let n = (of_char c :: nat) in
      if c = q \<or> c = CHR 0x5C then [CHR 0x5C, c]
      else if c = CHR 0x0A then [CHR 0x5C, CHR ''n'']
      else if c = CHR 0x0D then [CHR 0x5C, CHR ''r'']
      else if c = CHR 0x09 then [CHR 0x5C, CHR ''t'']
      else if n < 32 \<or> (127 \<le> n \<and> n \<le> 160) \<or> n = 173
           then [CHR 0x5C, CHR ''x'', hex_char (n div 16), hex_char n]
      else [c])"

definition str_repr :: "string \<Rightarrow> string" where
  "str_repr s =
     (let q = (if CHR 0x27 \<in> set s \<and> CHR 0x22 \<notin> set s then CHR 0x22 else CHR 0x27)
      in q # concat (map (repr_char q) s) @ [q])"

fun join_comma :: "string list \<Rightarrow> string" where
  "join_comma [] = []"
| "join_comma [x] = x"
| "join_comma (x # y # ys) = x @ '', '' @ join_comma (y # ys)"

text \<open>The results of a list of computations, or the first exception.\<close>

fun sequence_err :: "(error + 'a) list \<Rightarrow> error + 'a list" where
  "sequence_err [] = Inr []"
| "sequence_err (r # rs) =
     bind_err r (\<lambda>x. bind_err (sequence_err rs) (\<lambda>xs. Inr (x # xs)))"

fun py_repr :: "pyval \<Rightarrow> error + string" where
  "py_repr PNone = Inr ''None''"
| "py_repr (PBool b) = Inr (if b then ''True'' else ''False'')"
| "py_repr (PInt n) = int_repr n"
| "py_repr (PFloat f) = Inr (float_repr f)"
| "py_repr (PStr s) = Inr (str_repr s)"
| "py_repr (PList xs) =
     bind_err (sequence_err (map py_repr xs)) (\<lambda>ss. Inr (''['' @ join_comma ss @ '']''))"
| "py_repr (PDict d) =
     bind_err
       (sequence_err
          (map (\<lambda>kv. bind_err (py_repr (snd kv)) (\<lambda>s. Inr (str_repr (fst kv) @ '': '' @ s))) d))
       (\<lambda>ss. Inr (''{'' @ join_comma ss @ ''}''))"

text \<open>\<^verbatim>\<open>str(x)\<close>: a string is itself, anything else its \<^verbatim>\<open>repr\<close>.\<close>

definition py_str :: "pyval \<Rightarrow> error + string" where
  "py_str v = (case v of PStr s \<Rightarrow> Inr s | _ \<Rightarrow> py_repr v)"

subsection \<open>Dictionaries, iteration and caught exceptions\<close>

type_synonym pydict = "(string \<times> pyval) list"

text \<open>\<^verbatim>\<open>d.get(k, default)\<close>\<close>

definition dict_get :: "pydict \<Rightarrow> string \<Rightarrow> pyval \<Rightarrow> pyval" where
  "dict_get d k dflt = (case map_of d k of Some v \<Rightarrow> v | None \<Rightarrow> dflt)"

text \<open>
  \<^verbatim>\<open>for x in v\<close>: a list gives its elements, a string its characters, a dictionary its
  keys; nothing else can be iterated.
\<close>

fun py_iter :: "pyval \<Rightarrow> error + pyval list" where
  "py_iter (PList xs) = Inr xs"
| "py_iter (PStr s) = Inr (map (\<lambda>c. PStr [c]) s)"
| "py_iter (PDict d) = Inr (map (\<lambda>kv. PStr (fst kv)) d)"
| "py_iter _ = Inl TypeError"

text \<open>
  \<^verbatim>\<open>try: ... except (TypeError, ValueError) as exc: raise ValueError(msg) from exc\<close>.
  Any other exception passes through.
\<close>

definition reraise :: "string \<Rightarrow> error + 'a \<Rightarrow> error + 'a" where
  "reraise msg r =
     (case r of
        Inl TypeError \<Rightarrow> Inl (ValueError msg)
      | Inl (ValueError _) \<Rightarrow> Inl (ValueError msg)
      | _ \<Rightarrow> r)"

section \<open>\<^verbatim>\<open>backend/utils/validation.py\<close>\<close>

definition MNIST_INPUT_SIZE :: int where
  "MNIST_INPUT_SIZE = 28 * 28"

subsection \<open>\<^verbatim>\<open>validate_architecture\<close>\<close>

text \<open>The messages of the errors \<^verbatim>\<open>validate_architecture\<close> raises.\<close>

definition E_architecture :: string where
  "E_architecture = ''`architecture` must be an object.''"

definition E_layers :: string where
  "E_layers = ''`architecture.layers` must contain at least one layer.''"

definition E_input_size :: string where
  "E_input_size = ''`architecture.input_size` must be convertible to int.''"

definition E_layer :: string where
  "E_layer = ''Each layer must be described by an object.''"

definition E_dims :: string where
  "E_dims = ''Linear layer dimensions must be integers.''"

text \<open>
  A sanitised layer is \<^verbatim>\<open>{"type": "linear", "in": i, "out": o}\<close> or \<^verbatim>\<open>{"type": t}\<close>.
\<close>

datatype layer_spec = Linear int int | Layer string

record arch_spec =
  input_size :: int
  layers :: "layer_spec list"

text \<open>
  The loop over the layers (lines 33 to 49), with the running \<open>prev_out\<close>. The list it
  returns is \<open>sanitized_layers\<close>.
\<close>

fun sanitize_layers :: "int \<Rightarrow> pyval list \<Rightarrow> error + layer_spec list" where
  "sanitize_layers prev_out [] = Inr []"
| "sanitize_layers prev_out (PDict layer # rest) =
     bind_err (py_str (dict_get layer ''type'' (PStr ''linear'')))
       (\<lambda>type_str.
          let layer_type = lower type_str in
          if layer_type = ''linear'' then
            (let in_dim = dict_get layer ''in'' (PInt prev_out);
                 out_dim = dict_get layer ''out'' in_dim
             in bind_err
                  (reraise E_dims
                     (bind_err (py_int in_dim)
                        (\<lambda>i. bind_err (py_int out_dim) (\<lambda>out. Inr (i, out)))))
                  (\<lambda>(i, out). bind_err (sanitize_layers out rest)
                     (\<lambda>ls. Inr (Linear i out # ls))))
          else bind_err (sanitize_layers prev_out rest) (\<lambda>ls. Inr (Layer layer_type # ls)))"
| "sanitize_layers prev_out (_ # rest) =
     Inl (ValueError E_layer)"

definition validate_architecture :: "pyval \<Rightarrow> error + arch_spec" where
  "validate_architecture payload =
     (case payload of
        PDict p \<Rightarrow>
          (let input_size_raw = dict_get p ''input_size'' (PInt MNIST_INPUT_SIZE);
               got = dict_get p ''layers'' PNone;
               layers_raw = (if py_bool got then got else PList [])
           in if \<not> py_bool layers_raw
              then Inl (ValueError E_layers)
              else
                bind_err
                  (reraise E_input_size
                     (py_int input_size_raw))
                  (\<lambda>n. bind_err (py_iter layers_raw)
                     (\<lambda>ls. bind_err (sanitize_layers n ls)
                        (\<lambda>sl. Inr \<lparr>input_size = n, layers = sl\<rparr>))))
      | _ \<Rightarrow> Inl (ValueError E_architecture))"

subsection \<open>\<^verbatim>\<open>validate_hyperparams\<close>\<close>

text \<open>The messages of the errors \<^verbatim>\<open>validate_hyperparams\<close> raises.\<close>

definition E_hyperparams :: string where
  "E_hyperparams = ''`hyperparams` must be an object.''"

definition E_epochs :: string where
  "E_epochs = ''`hyperparams.epochs` must be an integer.''"

definition E_batch_size :: string where
  "E_batch_size = ''`hyperparams.batch_size` must be an integer.''"

definition E_train_split :: string where
  "E_train_split = ''`hyperparams.train_split` must be numeric.''"

definition E_seed :: string where
  "E_seed = ''`hyperparams.seed` must be integer or null.''"

definition E_max_samples :: string where
  "E_max_samples = ''`hyperparams.max_samples` must be an integer.''"

record hyperparams =
  epochs :: int
  batch_size :: int
  optimizer :: pydict
  loss :: string
  seed :: "int option"
  train_split :: pyfloat
  shuffle :: bool
  max_samples :: int

definition DEFAULT_TYPE :: string where
  "DEFAULT_TYPE = ''sgd''"

text \<open>A float literal of the source is the double nearest to its decimal value.\<close>

definition DEFAULT_LR :: pyfloat where
  "DEFAULT_LR = round_double (1 / 10)"

definition DEFAULT_MOMENTUM :: pyfloat where
  "DEFAULT_MOMENTUM = Finite 0"

definition DEFAULT_OPTIMIZER :: pydict where
  "DEFAULT_OPTIMIZER =
     [(''type'', PStr DEFAULT_TYPE), (''lr'', PFloat DEFAULT_LR),
      (''momentum'', PFloat DEFAULT_MOMENTUM)]"

definition DEFAULT_HYPERPARAMS :: hyperparams where
  "DEFAULT_HYPERPARAMS =
     \<lparr>epochs = 5, batch_size = 64, optimizer = DEFAULT_OPTIMIZER, loss = ''cross_entropy'',
      seed = None, train_split = round_double (9 / 10), shuffle = True, max_samples = 4096\<rparr>"

text \<open>
  A top-level field that is coerced under \<^verbatim>\<open>try\<close>: the new value of the field, which is
  the old one when the key is absent.
\<close>

definition strict_field ::
  "pydict \<Rightarrow> string \<Rightarrow> (pyval \<Rightarrow> error + 'a) \<Rightarrow> string \<Rightarrow> 'a \<Rightarrow> error + 'a" where
  "strict_field payload key conv msg old =
     (case map_of payload key of
        None \<Rightarrow> Inr old
      | Some v \<Rightarrow> reraise msg (conv v))"

text \<open>Lines 86 to 94: \<^verbatim>\<open>None\<close> stays, anything else goes through \<^verbatim>\<open>int\<close>.\<close>

definition seed_of :: "pyval \<Rightarrow> error + int option" where
  "seed_of v = (if v = PNone then Inr None else bind_err (py_int v) (\<lambda>n. Inr (Some n)))"

text \<open>
  An optimizer field that is coerced under \<^verbatim>\<open>try\<close> with a fallback (lines 111 to 128):
  a \<open>TypeError\<close> or \<open>ValueError\<close> stores the fallback, any other exception leaves the
  function.
\<close>

definition float_field :: "string \<Rightarrow> pyfloat \<Rightarrow> pydict \<Rightarrow> error + pydict" where
  "float_field key fallback opt_cfg =
     (case map_of opt_cfg key of
        None \<Rightarrow> Inr opt_cfg
      | Some v \<Rightarrow>
          (case py_float v of
             Inr f \<Rightarrow> Inr (AList.update key (PFloat f) opt_cfg)
           | Inl OverflowError \<Rightarrow> Inl OverflowError
           | Inl _ \<Rightarrow> Inr (AList.update key (PFloat fallback) opt_cfg)))"

text \<open>The loop of lines 123 to 128 over the key/fallback pairs of the adam branch.\<close>

fun float_fields :: "(string \<times> pyfloat) list \<Rightarrow> pydict \<Rightarrow> error + pydict" where
  "float_fields [] opt_cfg = Inr opt_cfg"
| "float_fields ((key, fallback) # rest) opt_cfg =
     bind_err (float_field key fallback opt_cfg) (float_fields rest)"

definition ADAM_FALLBACKS :: "(string \<times> pyfloat) list" where
  "ADAM_FALLBACKS =
     [(''beta1'', round_double (9 / 10)), (''beta2'', round_double (999 / 1000)),
      (''eps'', round_double (1 / 100000000))]"

text \<open>Lines 109 to 128, on the optimizer record of the result.\<close>

definition normalize_optimizer :: "pydict \<Rightarrow> error + pydict" where
  "normalize_optimizer opt_cfg0 =
     bind_err (py_str (dict_get opt_cfg0 ''type'' (PStr DEFAULT_TYPE)))
       (\<lambda>type_str.
          let ty = lower type_str;
              opt_cfg = AList.update ''type'' (PStr ty) opt_cfg0
          in bind_err (float_field ''lr'' DEFAULT_LR opt_cfg)
               (\<lambda>opt_cfg.
                  if ty = ''sgd'' then float_field ''momentum'' DEFAULT_MOMENTUM opt_cfg
                  else if ty = ''adam'' then float_fields ADAM_FALLBACKS opt_cfg
                  else Inr opt_cfg))"

text \<open>Lines 102 to 107: a mapping is merged key by key onto the default optimizer.\<close>

definition merge_optimizer :: "pyval \<Rightarrow> pydict \<Rightarrow> pydict" where
  "merge_optimizer opt current =
     (case opt of
        PDict items \<Rightarrow> foldl (\<lambda>merged kv. AList.update (fst kv) (snd kv) merged) DEFAULT_OPTIMIZER items
      | _ \<Rightarrow> current)"

text \<open>
  The result starts as a copy of the defaults (line 60; values are immutable here, so the
  copy is the value itself), and the fields are overwritten in the order of the source.
\<close>

definition validate_hyperparams :: "pyval \<Rightarrow> error + hyperparams" where
  "validate_hyperparams payload0 =
     (case (if payload0 = PNone then PDict [] else payload0) of
        PDict payload \<Rightarrow>
          (let result = DEFAULT_HYPERPARAMS in
           bind_err (strict_field payload ''epochs'' py_int
                       E_epochs (epochs result))
           (\<lambda>ep. bind_err (strict_field payload ''batch_size'' py_int
                       E_batch_size (batch_size result))
           (\<lambda>bs. bind_err (strict_field payload ''train_split'' py_float
                       E_train_split (train_split result))
           (\<lambda>ts.
              let sh = (case map_of payload ''shuffle'' of
                          Some v \<Rightarrow> py_bool v | None \<Rightarrow> shuffle result)
              in bind_err (case map_of payload ''loss'' of
                             Some v \<Rightarrow> py_str v | None \<Rightarrow> Inr (loss result))
           (\<lambda>lo. bind_err (strict_field payload ''seed'' seed_of
                       E_seed (seed result))
           (\<lambda>sd. bind_err (strict_field payload ''max_samples'' py_int
                       E_max_samples (max_samples result))
           (\<lambda>ms. bind_err (normalize_optimizer
                       (merge_optimizer (dict_get payload ''optimizer'' PNone) (optimizer result)))
           (\<lambda>opt. Inr \<lparr>epochs = ep, batch_size = bs, optimizer = opt, loss = lo, seed = sd,
                         train_split = ts, shuffle = sh, max_samples = ms\<rparr>))))))))
      | _ \<Rightarrow> Inl (ValueError E_hyperparams))"

section \<open>\<^verbatim>\<open>backend/services/model_service.py\<close>\<close>

subsection \<open>The sizes \<^verbatim>\<open>prepare_dataloaders\<close> computes\<close>

text \<open>\<^verbatim>\<open>x or d\<close> for an optional integer: \<^verbatim>\<open>None\<close> and \<open>0\<close> are falsy.\<close>

definition or_default :: "int option \<Rightarrow> int \<Rightarrow> int" where
  "or_default x d = (case x of None \<Rightarrow> d | Some m \<Rightarrow> if m = 0 then d else m)"

text \<open>
  Lines 38 to 45 of \<^verbatim>\<open>prepare_dataloaders\<close>: the number of samples that is synthesised and
  the two lengths handed to \<^verbatim>\<open>random_split\<close>, as \<open>(total_samples, train_len, val_len)\<close>.
  The dataset has one row per sample, so \<^verbatim>\<open>len(dataset)\<close> is \<open>total_samples\<close>. The
  arguments are \<open>batch_size\<close>, \<open>train_split\<close> and \<open>max_samples\<close>; the tensors, the
  random generator and the loaders are not part of this model.
\<close>

definition prepare_dataloaders_lens ::
  "int \<Rightarrow> pyfloat \<Rightarrow> int option \<Rightarrow> error + int \<times> int \<times> int" where
  "prepare_dataloaders_lens batch_sz split max_n =
     (let total_samples = max (or_default max_n (max_samples DEFAULT_HYPERPARAMS)) (batch_sz * 2);
          total_samples = max 2 total_samples
      in bind_err (py_float (PInt total_samples))
           (\<lambda>len_f. bind_err (int_of_float (float_mul len_f split))
              (\<lambda>scaled.
                 let train_len = max 1 scaled;
                     train_len = (if train_len \<ge> total_samples then total_samples - 1
                                  else train_len);
                     val_len = max 1 (total_samples - train_len)
                 in Inr (total_samples, train_len, val_len))))"

subsection \<open>\<^verbatim>\<open>synthetic_dataset\<close> and \<^verbatim>\<open>prepare_dataloaders\<close> with the random generator\<close>

text \<open>
  The calls into the tensor library are parameters: each is a function of its arguments and
  of the state of the generator it is given, and returns the state it leaves. \<open>'g\<close> is a
  generator state and \<open>'t\<close> a tensor. A dataset is the pair of its tensors, and a loader
  records what \<^verbatim>\<open>DataLoader\<close> is given; the source hands the same generator object to both
  loaders, here both hold the state it has when the function returns. A library call that
  raises is not part of this model.
\<close>

record ('g, 't) torch =
  manual_seed :: "int \<Rightarrow> 'g"
  rand :: "int \<Rightarrow> int \<Rightarrow> 'g \<Rightarrow> 't \<times> 'g"
  randint :: "int \<Rightarrow> int \<Rightarrow> int \<Rightarrow> 'g \<Rightarrow> 't \<times> 'g"
  random_split :: "'t \<times> 't \<Rightarrow> int list \<Rightarrow> 'g \<Rightarrow> (('t \<times> 't) \<times> ('t \<times> 't)) \<times> 'g"

record ('g, 't) data_loader =
  dl_dataset :: "'t \<times> 't"
  dl_batch_size :: int
  dl_shuffle :: bool
  dl_generator :: 'g

text \<open>
  \<^verbatim>\<open>torch.Generator()\<close> followed by \<^verbatim>\<open>manual_seed(seed)\<close> when a seed is given. \<open>fresh\<close> is
  the state of the new generator, which the caller does not control.
\<close>

definition new_generator :: "('g, 't) torch \<Rightarrow> 'g \<Rightarrow> int option \<Rightarrow> 'g" where
  "new_generator lib fresh seed_arg =
     (case seed_arg of None \<Rightarrow> fresh | Some s \<Rightarrow> manual_seed lib s)"

definition synthetic_dataset ::
  "('g, 't) torch \<Rightarrow> 'g \<Rightarrow> int \<Rightarrow> int \<Rightarrow> int option \<Rightarrow> 't \<times> 't" where
  "synthetic_dataset lib fresh n_samples input_sz seed_arg =
     (let generator = new_generator lib fresh seed_arg in
      case rand lib n_samples input_sz generator of
        (data, generator) \<Rightarrow>
          (case randint lib 0 10 n_samples generator of
             (labels, generator) \<Rightarrow> (data, labels)))"

text \<open>
  The arguments are \<open>batch_size\<close>, \<open>train_split\<close>, \<open>shuffle\<close>, \<open>max_samples\<close> and \<open>seed\<close>;
  \<open>fresh1\<close> and \<open>fresh2\<close> are the states of the two generators the call creates.
\<close>

definition prepare_dataloaders ::
  "('g, 't) torch \<Rightarrow> 'g \<Rightarrow> 'g \<Rightarrow> int \<Rightarrow> pyfloat \<Rightarrow> bool \<Rightarrow> int option \<Rightarrow> int option
     \<Rightarrow> error + ('g, 't) data_loader \<times> ('g, 't) data_loader" where
  "prepare_dataloaders lib fresh1 fresh2 batch_sz split shuffle_flag max_n seed_arg =
     bind_err (prepare_dataloaders_lens batch_sz split max_n)
       (\<lambda>(total_samples, train_len, val_len).
          let dataset = synthetic_dataset lib fresh1 total_samples MNIST_INPUT_SIZE seed_arg;
              generator = new_generator lib fresh2 seed_arg
          in case random_split lib dataset [train_len, val_len] generator of
               ((train_dataset, val_dataset), generator) \<Rightarrow>
                 Inr (\<lparr>dl_dataset = train_dataset, dl_batch_size = batch_sz,
                        dl_shuffle = shuffle_flag, dl_generator = generator\<rparr>,
                      \<lparr>dl_dataset = val_dataset, dl_batch_size = batch_sz,
                        dl_shuffle = False, dl_generator = generator\<rparr>))"

section \<open>Vocabulary of the statements\<close>

text \<open>A structured mapping is a dictionary.\<close>

definition is_mapping :: "pyval \<Rightarrow> bool" where
  "is_mapping v = (case v of PDict _ \<Rightarrow> True | _ \<Rightarrow> False)"

text \<open>The exceptions a \<^verbatim>\<open>try\<close> of the validators catches.\<close>

definition caught :: "error + 'a \<Rightarrow> bool" where
  "caught r = (case r of Inl TypeError \<Rightarrow> True | Inl (ValueError _) \<Rightarrow> True | _ \<Rightarrow> False)"


definition coerces :: "pydict \<Rightarrow> string \<Rightarrow> (pyval \<Rightarrow> error + 'a) \<Rightarrow> bool" where
  "coerces p k conv = (case map_of p k of Some v \<Rightarrow> \<not> isl (conv v) | None \<Rightarrow> True)"

text \<open>The five top-level fields that are coerced under \<^verbatim>\<open>try\<close>.\<close>

definition strict_fields_coerce :: "pydict \<Rightarrow> bool" where
  "strict_fields_coerce p =
     (coerces p ''epochs'' py_int \<and> coerces p ''batch_size'' py_int
      \<and> coerces p ''train_split'' py_float \<and> coerces p ''seed'' seed_of
      \<and> coerces p ''max_samples'' py_int)"

text \<open>
  The optimizer record before its fields are normalised, and the two values that go
  through \<^verbatim>\<open>str\<close> outside any \<^verbatim>\<open>try\<close>: \<open>loss\<close> and the type of the optimizer. \<^verbatim>\<open>str\<close>
  raises only on an integer of more than 4300 digits, alone or inside a list or mapping.
\<close>

definition merged_optimizer :: "pydict \<Rightarrow> pydict" where
  "merged_optimizer p = merge_optimizer (dict_get p ''optimizer'' PNone) DEFAULT_OPTIMIZER"


text \<open>The optimizer \<^verbatim>\<open>{"type": "adam", "lr": "not-a-number"}\<close>.\<close>

definition adam_bad :: pyval where
  "adam_bad = PDict [(''type'', PStr ''adam''), (''lr'', PStr ''not-a-number'')]"

text \<open>
  The dimension inference as the specification words it: a pass from left to right that
  carries \<open>prev_out\<close>. The type of a layer is the lower-cased text of its \<open>type\<close>, which is
  \<open>linear\<close> when the key is missing. A supplied dimension is the integer the raw value
  coerces to; an omitted one is the default. \<open>None\<close> where a layer is not a mapping, a
  type has no text or a dimension does not coerce.
\<close>

definition layer_type_of :: "pydict \<Rightarrow> error + string" where
  "layer_type_of raw =
     bind_err (py_str (dict_get raw ''type'' (PStr ''linear''))) (\<lambda>s. Inr (lower s))"

definition is_linear :: "pydict \<Rightarrow> bool" where
  "is_linear raw = (layer_type_of raw = Inr ''linear'')"

definition supplied :: "pydict \<Rightarrow> string \<Rightarrow> int \<Rightarrow> error + int" where
  "supplied raw k dflt = (case map_of raw k of Some v \<Rightarrow> py_int v | None \<Rightarrow> Inr dflt)"

fun infer_dims :: "int \<Rightarrow> pyval list \<Rightarrow> layer_spec list option" where
  "infer_dims prev_out [] = Some []"
| "infer_dims prev_out (PDict raw # rest) =
     (case layer_type_of raw of
        Inl _ \<Rightarrow> None
      | Inr t \<Rightarrow>
          if t = ''linear'' then
            (case supplied raw ''in'' prev_out of
               Inr i \<Rightarrow>
                 (case supplied raw ''out'' i of
                    Inr out \<Rightarrow> map_option ((#) (Linear i out)) (infer_dims out rest)
                  | Inl _ \<Rightarrow> None)
             | Inl _ \<Rightarrow> None)
          else map_option ((#) (Layer t)) (infer_dims prev_out rest))"
| "infer_dims prev_out (_ # rest) = None"

text \<open>The value of \<open>prev_out\<close> after a list of sanitised layers.\<close>

definition last_out :: "int \<Rightarrow> layer_spec list \<Rightarrow> int" where
  "last_out prev_out sl =
     foldl (\<lambda>prev l. case l of Linear i out \<Rightarrow> out | Layer t \<Rightarrow> prev) prev_out sl"

text \<open>The example of the specification.\<close>

definition example_architecture :: pyval where
  "example_architecture =
     PDict [(''input_size'', PInt 784),
            (''layers'', PList [PDict [(''type'', PStr ''linear''), (''out'', PInt 128)],
                                PDict [(''type'', PStr ''relu'')],
                                PDict [(''type'', PStr ''linear''), (''out'', PInt 10)],
                                PDict [(''type'', PStr ''softmax'')]])]"

text \<open>
  An architecture with capitals in its types, one of them the Latin-1 letter U+00C9, with
  dimensions given as text and a layer without a type:
  \<^verbatim>\<open>{"input_size": "20", "layers": [{"type": "Linear", "out": 8}, {"type": "ReLU"},
  {"type": "R\u00c9LU"}, {"out": " 4 "}]}\<close>.
\<close>

definition mixed_case_architecture :: pyval where
  "mixed_case_architecture =
     PDict [(''input_size'', PStr ''20''),
            (''layers'', PList [PDict [(''type'', PStr ''Linear''), (''out'', PInt 8)],
                                PDict [(''type'', PStr ''ReLU'')],
                                PDict [(''type'', PStr [CHR ''R'', CHR 0xC9, CHR ''L'', CHR ''U''])],
                                PDict [(''out'', PStr '' 4 '')]])]"

text \<open>The number a float stands for, when it is finite: both zeros stand for 0.\<close>

definition float_value :: "pyfloat \<Rightarrow> rat option" where
  "float_value f = (case f of Finite q \<Rightarrow> Some q | NegZero \<Rightarrow> Some 0 | _ \<Rightarrow> None)"

section \<open>Properties\<close>

subsection \<open>Evaluation rules\<close>

lemmas str_eval =
  strip_space_def is_space_def is_digit_def digit_val_def num_of_digits_def lower_def
  lower_char_def is_upper_def int_of_str_def float_of_str_def py_str_def INT_MAX_STR_DIGITS_def

lemmas dict_eval =
  dict_get_def reraise_def bind_err_def strict_field_def float_field_def seed_of_def


lemma bind_err_Inl:
  "bind_err r f = Inl e \<longleftrightarrow> r = Inl e \<or> (\<exists>x. r = Inr x \<and> f x = Inl e)"
  by (cases r) (simp_all add: bind_err_def)

lemma bind_err_Inr:
  "bind_err r f = Inr y \<longleftrightarrow> (\<exists>x. r = Inr x \<and> f x = Inr y)"
  by (cases r) (simp_all add: bind_err_def)

lemma reraise_Inr: "reraise msg r = Inr x \<longleftrightarrow> r = Inr x"
  by (auto simp: reraise_def split: sum.splits error.splits)

subsection \<open>What \<^verbatim>\<open>str\<close> can raise\<close>

lemma sequence_err_Inl:
  "sequence_err (map f xs) = Inl e \<Longrightarrow> \<exists>x\<in>set xs. f x = Inl e"
  by (induction xs) (auto simp: bind_err_Inl)

lemma int_repr_error: "int_repr n = Inl e \<Longrightarrow> e = ValueError E_int_limit"
  by (auto simp: int_repr_def split: if_splits)

lemma py_repr_error: "py_repr v = Inl e \<Longrightarrow> e = ValueError E_int_limit"
proof (induction v rule: py_repr.induct)
  case (3 n)
  then show ?case by (simp add: int_repr_error)
next
  case (6 xs)
  from "6.prems" have "sequence_err (map py_repr xs) = Inl e"
    by (simp add: bind_err_Inl)
  then obtain x where "x \<in> set xs" "py_repr x = Inl e"
    using sequence_err_Inl by blast
  then show ?case by (rule "6.IH")
next
  case (7 d)
  from "7.prems" have
    "sequence_err
       (map (\<lambda>kv. bind_err (py_repr (snd kv)) (\<lambda>s. Inr (str_repr (fst kv) @ '': '' @ s))) d)
     = Inl e"
    by (simp add: bind_err_Inl)
  then obtain kv where "kv \<in> set d"
    "bind_err (py_repr (snd kv)) (\<lambda>s. Inr (str_repr (fst kv) @ '': '' @ s)) = Inl e"
    using sequence_err_Inl by blast
  then have "kv \<in> set d" "py_repr (snd kv) = Inl e"
    by (simp_all add: bind_err_Inl)
  then show ?case by (rule "7.IH")
qed simp_all

lemma py_str_error: "py_str v = Inl e \<Longrightarrow> e = ValueError E_int_limit"
proof (cases "\<exists>s. v = PStr s")
  case True
  then show "py_str v = Inl e \<Longrightarrow> e = ValueError E_int_limit"
    by (auto simp: py_str_def)
next
  case False
  then have "py_str v = py_repr v"
    by (cases v) (simp_all add: py_str_def)
  then show "py_str v = Inl e \<Longrightarrow> e = ValueError E_int_limit"
    by (simp add: py_repr_error)
qed

lemma py_str_text [simp]: "py_str (PStr s) = Inr s"
  by (simp add: py_str_def)

subsection \<open>The defaults\<close>

lemma normalize_default_optimizer: "normalize_optimizer DEFAULT_OPTIMIZER = Inr DEFAULT_OPTIMIZER"
  by (simp add: normalize_optimizer_def lower_def lower_char_def is_upper_def dict_eval
      DEFAULT_OPTIMIZER_def DEFAULT_TYPE_def DEFAULT_MOMENTUM_def)

lemma optimizer_default: "optimizer DEFAULT_HYPERPARAMS = DEFAULT_OPTIMIZER"
  by (simp add: DEFAULT_HYPERPARAMS_def)


text \<open>
  Claim C7. \<^verbatim>\<open>validate_hyperparams(None)\<close> and \<^verbatim>\<open>validate_hyperparams({})\<close> return the
  same record, and that record is the record of defaults, field by field, the optimizer
  record included.
\<close>

theorem validate_hyperparams_defaults:
  "validate_hyperparams PNone = Inr DEFAULT_HYPERPARAMS
   \<and> validate_hyperparams (PDict []) = Inr DEFAULT_HYPERPARAMS"
  by (simp add: validate_hyperparams_def merge_optimizer_def normalize_default_optimizer
      strict_field_def dict_get_def bind_err_def DEFAULT_HYPERPARAMS_def)

subsection \<open>\<^verbatim>\<open>validate_hyperparams\<close>: what raises and what is tolerated\<close>


lemma strict_field_coerces:
  "coerces p k conv \<Longrightarrow> \<exists>x. strict_field p k conv msg old = Inr x"
  by (auto simp: strict_field_def coerces_def reraise_def isl_def
      split: option.splits sum.splits error.splits)



lemma strict_field_delete:
  "k \<noteq> k' \<Longrightarrow> strict_field (AList.delete k' p) k conv msg old = strict_field p k conv msg old"
  by (simp add: strict_field_def)

lemma float_field_cases:
  "(\<exists>c'. float_field k f c = Inr c') \<or> float_field k f c = Inl OverflowError"
  by (auto simp: float_field_def split: option.splits sum.splits error.splits)

lemma float_fields_cases:
  "(\<exists>c'. float_fields kfs c = Inr c') \<or> float_fields kfs c = Inl OverflowError"
proof (induction kfs arbitrary: c)
  case Nil
  then show ?case by simp
next
  case (Cons kf kfs)
  obtain k f where kf: "kf = (k, f)" by (cases kf)
  from float_field_cases [of k f c] show ?case
  proof
    assume "\<exists>c'. float_field k f c = Inr c'"
    then obtain c' where "float_field k f c = Inr c'" ..
    then have "float_fields (kf # kfs) c = float_fields kfs c'"
      by (simp add: kf bind_err_def)
    with Cons.IH [of c'] show ?thesis by simp
  next
    assume "float_field k f c = Inl OverflowError"
    then show ?thesis by (simp add: kf bind_err_def)
  qed
qed

text \<open>
  The normalisation of the optimizer returns, or raises \<open>OverflowError\<close> from \<^verbatim>\<open>float\<close>, or
  raises the error of \<^verbatim>\<open>str\<close> on its type.
\<close>

lemma normalize_optimizer_cases:
  "(\<exists>c'. normalize_optimizer c = Inr c') \<or> normalize_optimizer c = Inl OverflowError
   \<or> (normalize_optimizer c = Inl (ValueError E_int_limit) \<and> \<not> coerces c ''type'' py_str)"
proof (cases "py_str (dict_get c ''type'' (PStr DEFAULT_TYPE))")
  case (Inl e)
  then have e: "e = ValueError E_int_limit" by (rule py_str_error)
  from Inl have "\<not> coerces c ''type'' py_str"
    by (auto simp: coerces_def dict_get_def split: option.splits)
  with Inl e show ?thesis by (simp add: normalize_optimizer_def bind_err_def)
next
  case (Inr type_str)
  let ?c1 = "AList.update ''type'' (PStr (lower type_str)) c"
  from float_field_cases [of "''lr''" DEFAULT_LR ?c1] show ?thesis
  proof
    assume "\<exists>c'. float_field ''lr'' DEFAULT_LR ?c1 = Inr c'"
    then obtain c2 where c2: "float_field ''lr'' DEFAULT_LR ?c1 = Inr c2" ..
    from float_field_cases [of "''momentum''" DEFAULT_MOMENTUM c2]
      float_fields_cases [of ADAM_FALLBACKS c2] c2 Inr
    show ?thesis by (auto simp: normalize_optimizer_def Let_def bind_err_def)
  next
    assume "float_field ''lr'' DEFAULT_LR ?c1 = Inl OverflowError"
    with Inr show ?thesis by (simp add: normalize_optimizer_def Let_def bind_err_def)
  qed
qed

lemma normalize_optimizer_coerces:
  "coerces c ''type'' py_str \<Longrightarrow>
   (\<exists>c'. normalize_optimizer c = Inr c') \<or> normalize_optimizer c = Inl OverflowError"
  using normalize_optimizer_cases [of c] by blast

lemma not_a_number: "float_of_str ''not-a-number'' = None"
  by (simp add: str_eval)

lemma adam_bad_norm:
  "normalize_optimizer (merge_optimizer adam_bad c)
     = Inr [(''type'', PStr ''adam''), (''lr'', PFloat DEFAULT_LR),
            (''momentum'', PFloat DEFAULT_MOMENTUM)]"
  by (simp add: adam_bad_def normalize_optimizer_def merge_optimizer_def not_a_number
      lower_def lower_char_def is_upper_def dict_eval DEFAULT_OPTIMIZER_def DEFAULT_TYPE_def
      DEFAULT_MOMENTUM_def ADAM_FALLBACKS_def Let_def)

lemma vh_Inr:
  "validate_hyperparams (PDict p) = Inr r \<Longrightarrow>
   normalize_optimizer (merged_optimizer p) = Inr (optimizer r)"
  by (auto simp: validate_hyperparams_def merged_optimizer_def bind_err_Inr Let_def
      DEFAULT_HYPERPARAMS_def)

lemma loss_coerces:
  "coerces p ''loss'' py_str \<Longrightarrow>
   \<exists>lo. (case map_of p ''loss'' of Some v \<Rightarrow> py_str v | None \<Rightarrow> Inr d) = Inr lo"
proof (cases "map_of p ''loss''")
  case None
  then show ?thesis by simp
next
  case (Some v)
  assume "coerces p ''loss'' py_str"
  with Some show ?thesis by (cases "py_str v") (simp_all add: coerces_def)
qed

lemma vh_returns:
  assumes "strict_fields_coerce p" and "coerces p ''loss'' py_str"
    and "normalize_optimizer (merged_optimizer p) = Inr opt"
  shows "\<exists>r. validate_hyperparams (PDict p) = Inr r \<and> optimizer r = opt"
proof -
  from assms(1) obtain ep bs ts sd ms where
    "strict_field p ''epochs'' py_int E_epochs (epochs DEFAULT_HYPERPARAMS) = Inr ep"
    "strict_field p ''batch_size'' py_int E_batch_size (batch_size DEFAULT_HYPERPARAMS) = Inr bs"
    "strict_field p ''train_split'' py_float E_train_split (train_split DEFAULT_HYPERPARAMS)
       = Inr ts"
    "strict_field p ''seed'' seed_of E_seed (seed DEFAULT_HYPERPARAMS) = Inr sd"
    "strict_field p ''max_samples'' py_int E_max_samples (max_samples DEFAULT_HYPERPARAMS)
       = Inr ms"
    unfolding strict_fields_coerce_def using strict_field_coerces by metis
  moreover from loss_coerces [OF assms(2)] obtain lo where
    "(case map_of p ''loss'' of Some v \<Rightarrow> py_str v | None \<Rightarrow> Inr (loss DEFAULT_HYPERPARAMS))
       = Inr lo" ..
  ultimately show ?thesis
    using assms(3)
    by (simp add: validate_hyperparams_def merged_optimizer_def bind_err_def Let_def
        optimizer_default)
qed





text \<open>
  The separators U+001C to U+001F are white space for \<^verbatim>\<open>str.strip\<close> but not for \<^verbatim>\<open>int\<close> and
  \<^verbatim>\<open>float\<close>, so \<^verbatim>\<open>"\x1c12"\<close> is no number; a \<open>loss\<close> that is an integer of 4301 digits has no
  text.
\<close>

lemma separator_not_stripped:
  "py_int (PStr (CHR 0x1C # ''12'')) = Inl (ValueError ''invalid literal for int() with base 10'')
   \<and> py_int (PStr (CHR 0x20 # ''12'')) = Inr 12
   \<and> validate_hyperparams (PDict [(''optimizer'', adam_bad), (''epochs'', PStr (CHR 0x1C # ''12''))])
       = Inl (ValueError E_epochs)"
  by (simp add: validate_hyperparams_def str_eval dict_eval)

lemma loss_without_text:
  "validate_hyperparams (PDict [(''loss'', PInt (10 ^ INT_MAX_STR_DIGITS))])
     = Inl (ValueError E_int_limit)"
  by (simp add: validate_hyperparams_def py_str_def int_repr_def dict_eval)

text \<open>
  Claim C2. The optimizer \<^verbatim>\<open>{"type": "adam", "lr": "not-a-number"}\<close> does not make the
  call raise: the payload that holds only it is accepted, and so is every payload that
  holds it, whose five coerced top-level fields coerce and whose \<open>loss\<close> has a text; the
  \<open>lr\<close> of the result is the default learning rate. Every payload with the top-level
  field \<^verbatim>\<open>"epochs": "not-a-number"\<close> raises the \<open>ValueError\<close> whose message names
  \<open>hyperparams.epochs\<close>.
\<close>

theorem validate_hyperparams_asymmetry:
  "(\<exists>r. validate_hyperparams (PDict [(''optimizer'', adam_bad)]) = Inr r
        \<and> map_of (optimizer r) ''lr'' = Some (PFloat DEFAULT_LR))
   \<and> (\<forall>payload. map_of payload ''optimizer'' = Some adam_bad \<and> strict_fields_coerce payload
          \<and> coerces payload ''loss'' py_str \<longrightarrow>
        (\<exists>r. validate_hyperparams (PDict payload) = Inr r
           \<and> map_of (optimizer r) ''lr'' = Some (PFloat DEFAULT_LR)))
   \<and> (\<forall>payload. map_of payload ''epochs'' = Some (PStr ''not-a-number'') \<longrightarrow>
        validate_hyperparams (PDict payload)
          = Inl (ValueError E_epochs))"
proof (intro conjI allI impI)
  show "\<exists>r. validate_hyperparams (PDict [(''optimizer'', adam_bad)]) = Inr r
        \<and> map_of (optimizer r) ''lr'' = Some (PFloat DEFAULT_LR)"
    by (simp add: validate_hyperparams_def adam_bad_norm strict_field_def dict_get_def
        bind_err_def DEFAULT_HYPERPARAMS_def)
next
  fix payload
  assume a: "map_of payload ''optimizer'' = Some adam_bad \<and> strict_fields_coerce payload
    \<and> coerces payload ''loss'' py_str"
  then have "dict_get payload ''optimizer'' PNone = adam_bad"
    by (simp add: dict_get_def)
  then have "normalize_optimizer (merged_optimizer payload)
     = Inr [(''type'', PStr ''adam''), (''lr'', PFloat DEFAULT_LR),
            (''momentum'', PFloat DEFAULT_MOMENTUM)]"
    by (simp add: merged_optimizer_def adam_bad_norm)
  with a vh_returns [of payload]
  show "\<exists>r. validate_hyperparams (PDict payload) = Inr r
           \<and> map_of (optimizer r) ''lr'' = Some (PFloat DEFAULT_LR)"
    by fastforce
next
  fix payload
  assume "map_of payload ''epochs'' = Some (PStr ''not-a-number'')"
  then show "validate_hyperparams (PDict payload)
          = Inl (ValueError E_epochs)"
    by (simp add: validate_hyperparams_def str_eval dict_eval)
qed

text \<open>
  The statement at a payload with the optimizer, a good \<open>epochs\<close> and a \<open>loss\<close>, and at the
  payload with the bad \<open>epochs\<close>.
\<close>

theorem validate_hyperparams_asymmetry_witness:
  "strict_fields_coerce [(''epochs'', PStr '' 3 ''), (''loss'', PStr ''mse''), (''optimizer'', adam_bad)]
   \<and> coerces [(''epochs'', PStr '' 3 ''), (''loss'', PStr ''mse''), (''optimizer'', adam_bad)]
        ''loss'' py_str
   \<and> (\<exists>r. validate_hyperparams
             (PDict [(''epochs'', PStr '' 3 ''), (''loss'', PStr ''mse''), (''optimizer'', adam_bad)])
            = Inr r
           \<and> map_of (optimizer r) ''lr'' = Some (PFloat DEFAULT_LR))
   \<and> validate_hyperparams (PDict [(''epochs'', PStr ''not-a-number'')])
          = Inl (ValueError E_epochs)"
proof -
  let ?p = "[(''epochs'', PStr '' 3 ''), (''loss'', PStr ''mse''), (''optimizer'', adam_bad)]"
  have c: "strict_fields_coerce ?p"
    by (simp add: strict_fields_coerce_def coerces_def str_eval)
  have l: "coerces ?p ''loss'' py_str"
    by (simp add: coerces_def)
  from validate_hyperparams_asymmetry
  have 1: "map_of ?p ''optimizer'' = Some adam_bad \<and> strict_fields_coerce ?p
          \<and> coerces ?p ''loss'' py_str \<longrightarrow>
        (\<exists>r. validate_hyperparams (PDict ?p) = Inr r
           \<and> map_of (optimizer r) ''lr'' = Some (PFloat DEFAULT_LR))"
    and 2: "map_of [(''epochs'', PStr ''not-a-number'')] ''epochs'' = Some (PStr ''not-a-number'') \<longrightarrow>
        validate_hyperparams (PDict [(''epochs'', PStr ''not-a-number'')])
          = Inl (ValueError E_epochs)"
    by blast+
  from c l 1 2 show ?thesis by simp
qed




lemma merge_optimizer_ignored: "\<not> is_mapping v \<Longrightarrow> merge_optimizer v cur = cur"
  by (cases v) (simp_all add: merge_optimizer_def is_mapping_def)

lemma validate_hyperparams_delete_optimizer:
  assumes "map_of p ''optimizer'' = Some v" and "\<not> is_mapping v"
  shows "validate_hyperparams (PDict p) = validate_hyperparams (PDict (AList.delete ''optimizer'' p))"
proof -
  have "dict_get p ''optimizer'' PNone = v"
    using assms(1) by (simp add: dict_get_def)
  moreover have "dict_get (AList.delete ''optimizer'' p) ''optimizer'' PNone = PNone"
    by (simp add: dict_get_def AList.delete_conv')
  ultimately show ?thesis
    using assms(2)
    by (simp add: validate_hyperparams_def strict_field_delete merge_optimizer_ignored
        is_mapping_def AList.delete_conv')
qed

text \<open>
  Claim C10 says that a payload whose \<open>optimizer\<close> is not a mapping never raises. With
  a bad \<open>epochs\<close> beside it the call raises.
\<close>

theorem validate_hyperparams_optimizer_counterexample:
  "\<not> is_mapping (PStr ''adam'')
   \<and> validate_hyperparams (PDict [(''optimizer'', PStr ''adam''), (''epochs'', PStr ''not-a-number'')])
       = Inl (ValueError E_epochs)"
  by (simp add: is_mapping_def validate_hyperparams_def str_eval dict_eval)

text \<open>
  Claim C10, amended. An \<open>optimizer\<close> that is present and not a mapping is ignored: the
  call does what it does on the payload without the key, so it raises only where that
  payload raises; every result has the default optimizer record; and when the five
  coerced top-level fields coerce and the \<open>loss\<close> has a text the call returns.
\<close>

theorem validate_hyperparams_optimizer_ignored:
  assumes "map_of p ''optimizer'' = Some v" and "\<not> is_mapping v"
  shows "validate_hyperparams (PDict p) = validate_hyperparams (PDict (AList.delete ''optimizer'' p))
     \<and> (\<forall>r. validate_hyperparams (PDict p) = Inr r \<longrightarrow> optimizer r = DEFAULT_OPTIMIZER)
     \<and> (strict_fields_coerce p \<and> coerces p ''loss'' py_str \<longrightarrow>
          (\<exists>r. validate_hyperparams (PDict p) = Inr r \<and> optimizer r = DEFAULT_OPTIMIZER))"
proof -
  have g: "dict_get p ''optimizer'' PNone = v"
    using assms(1) by (simp add: dict_get_def)
  have n: "normalize_optimizer (merged_optimizer p) = Inr DEFAULT_OPTIMIZER"
    using assms(2)
    by (simp add: merged_optimizer_def g merge_optimizer_ignored normalize_default_optimizer)
  have "\<forall>r. validate_hyperparams (PDict p) = Inr r \<longrightarrow> optimizer r = DEFAULT_OPTIMIZER"
    using vh_Inr [of p] n by auto
  moreover have "strict_fields_coerce p \<and> coerces p ''loss'' py_str \<longrightarrow>
          (\<exists>r. validate_hyperparams (PDict p) = Inr r \<and> optimizer r = DEFAULT_OPTIMIZER)"
    using vh_returns [of p DEFAULT_OPTIMIZER] n by blast
  ultimately show ?thesis
    using validate_hyperparams_delete_optimizer [OF assms] by blast
qed

text \<open>
  The statement at \<^verbatim>\<open>{"optimizer": "adam", "epochs": 7, "loss": None}\<close>.
\<close>

theorem validate_hyperparams_optimizer_ignored_witness:
  "validate_hyperparams (PDict [(''optimizer'', PStr ''adam''), (''epochs'', PInt 7), (''loss'', PNone)])
     = validate_hyperparams (PDict [(''epochs'', PInt 7), (''loss'', PNone)])
   \<and> (\<exists>r. validate_hyperparams
            (PDict [(''optimizer'', PStr ''adam''), (''epochs'', PInt 7), (''loss'', PNone)]) = Inr r
          \<and> optimizer r = DEFAULT_OPTIMIZER)"
proof -
  let ?p = "[(''optimizer'', PStr ''adam''), (''epochs'', PInt 7), (''loss'', PNone)]"
  have 1: "map_of ?p ''optimizer'' = Some (PStr ''adam'')" by simp
  have 2: "\<not> is_mapping (PStr ''adam'')" by (simp add: is_mapping_def)
  have 3: "strict_fields_coerce ?p \<and> coerces ?p ''loss'' py_str"
    by (simp add: strict_fields_coerce_def coerces_def py_str_def)
  have 4: "AList.delete ''optimizer'' ?p = [(''epochs'', PInt 7), (''loss'', PNone)]"
    by (simp add: AList.delete_eq)
  from validate_hyperparams_optimizer_ignored [OF 1 2, unfolded 4] 3 show ?thesis
    by blast
qed

subsection \<open>\<^verbatim>\<open>validate_architecture\<close>: dimension inference and failures\<close>

lemma linear_dims:
  "reraise msg (bind_err (py_int (dict_get raw ''in'' (PInt prev)))
       (\<lambda>i. bind_err (py_int (dict_get raw ''out'' (dict_get raw ''in'' (PInt prev)))) (\<lambda>out. Inr (i, out))))
     = Inr (i, out)
   \<longleftrightarrow> supplied raw ''in'' prev = Inr i \<and> supplied raw ''out'' i = Inr out"
  by (auto simp: reraise_Inr bind_err_Inr supplied_def dict_get_def split: option.splits)

text \<open>One step of the loop on a mapping, in the words of the pass.\<close>

lemma sanitize_layers_step:
  "sanitize_layers prev (PDict layer # rest) = Inr sl \<longleftrightarrow>
     (\<exists>t. layer_type_of layer = Inr t \<and>
        (if t = ''linear''
         then \<exists>i out ls'. supplied layer ''in'' prev = Inr i \<and> supplied layer ''out'' i = Inr out
                \<and> sanitize_layers out rest = Inr ls' \<and> sl = Linear i out # ls'
         else \<exists>ls'. sanitize_layers prev rest = Inr ls' \<and> sl = Layer t # ls'))"
proof (cases "py_str (dict_get layer ''type'' (PStr ''linear''))")
  case (Inl e)
  then show ?thesis by (simp add: layer_type_of_def bind_err_def)
next
  case (Inr s)
  show ?thesis
  proof (cases "lower s = ''linear''")
    case True
    with Inr have t: "layer_type_of layer = Inr ''linear''"
      by (simp add: layer_type_of_def bind_err_def)
    have "sanitize_layers prev (PDict layer # rest) = Inr sl \<longleftrightarrow>
            (\<exists>i out ls'. supplied layer ''in'' prev = Inr i \<and> supplied layer ''out'' i = Inr out
               \<and> sanitize_layers out rest = Inr ls' \<and> sl = Linear i out # ls')"
      using Inr True by (auto simp: Let_def bind_err_Inr linear_dims)
    with t show ?thesis by simp
  next
    case False
    with Inr have t: "layer_type_of layer = Inr (lower s)"
      by (simp add: layer_type_of_def bind_err_def)
    have "sanitize_layers prev (PDict layer # rest) = Inr sl \<longleftrightarrow>
            (\<exists>ls'. sanitize_layers prev rest = Inr ls' \<and> sl = Layer (lower s) # ls')"
      using Inr False by (auto simp: Let_def bind_err_Inr)
    with t False show ?thesis by simp
  qed
qed

lemma sanitize_layers_infer:
  "sanitize_layers prev ls = Inr sl \<longleftrightarrow> infer_dims prev ls = Some sl"
proof (induction ls arbitrary: prev sl)
  case Nil
  show ?case by auto
next
  case (Cons x rest)
  show ?case
  proof (cases x)
    case (PDict layer)
    show ?thesis
      unfolding PDict sanitize_layers_step
      by (auto simp: Cons.IH split: sum.splits)
  qed simp_all
qed

lemma infer_dims_length: "infer_dims prev ls = Some sl \<Longrightarrow> length sl = length ls"
proof (induction ls arbitrary: prev sl)
  case Nil
  then show ?case by simp
next
  case (Cons x rest)
  then show ?case
    by (cases x) (auto split: if_splits sum.splits)
qed

lemma py_iter_accepted:
  assumes "py_bool v" and "py_iter v = Inr ls" and "sanitize_layers n ls = Inr sl"
  shows "v = PList ls"
proof (cases v)
  case (PStr s)
  with assms(1) obtain c cs where "s = c # cs" by (cases s) auto
  with PStr assms(2,3) show ?thesis by auto
next
  case (PDict d)
  with assms(1) obtain kv rest where "d = kv # rest" by (cases d) auto
  with PDict assms(2,3) show ?thesis by auto
qed (use assms in auto)

lemma validate_architecture_Inr:
  assumes "validate_architecture payload = Inr spec"
  shows "\<exists>p raw. payload = PDict p \<and> map_of p ''layers'' = Some (PList raw) \<and> raw \<noteq> []
           \<and> py_int (dict_get p ''input_size'' (PInt MNIST_INPUT_SIZE)) = Inr (input_size spec)
           \<and> sanitize_layers (input_size spec) raw = Inr (layers spec)"
proof (cases payload)
  case (PDict p)
  let ?got = "dict_get p ''layers'' PNone"
  from assms PDict have t: "py_bool ?got"
    by (auto simp: validate_architecture_def Let_def split: if_splits)
  with assms PDict obtain n ls sl where
    n: "py_int (dict_get p ''input_size'' (PInt MNIST_INPUT_SIZE)) = Inr n"
    and ls: "py_iter ?got = Inr ls" and sl: "sanitize_layers n ls = Inr sl"
    and spec: "spec = \<lparr>input_size = n, layers = sl\<rparr>"
    by (auto simp: validate_architecture_def Let_def bind_err_Inr reraise_Inr)
  from py_iter_accepted [OF t ls sl] have g: "?got = PList ls" .
  with t have ne: "ls \<noteq> []" by simp
  from g have "map_of p ''layers'' = Some (PList ls)"
    by (auto simp: dict_get_def split: option.splits)
  with n sl spec ne PDict show ?thesis by simp
qed (use assms in \<open>simp_all add: validate_architecture_def\<close>)

text \<open>A payload with a non-empty list of layers is accepted when its parts are.\<close>

lemma validate_architecture_accepts:
  assumes "map_of p ''layers'' = Some (PList raw)" and "raw \<noteq> []"
    and "py_int (dict_get p ''input_size'' (PInt MNIST_INPUT_SIZE)) = Inr n"
    and "sanitize_layers n raw = Inr sl"
  shows "validate_architecture (PDict p) = Inr \<lparr>input_size = n, layers = sl\<rparr>"
  using assms
  by (simp add: validate_architecture_def dict_get_def Let_def bind_err_def reraise_def)

lemmas arch_eval =
  validate_architecture_def example_architecture_def mixed_case_architecture_def str_eval
  dict_eval MNIST_INPUT_SIZE_def

text \<open>
  Claim C1. Whenever \<^verbatim>\<open>validate_architecture\<close> accepts a payload, the payload is a
  mapping whose \<open>layers\<close> is a list, \<open>input_size\<close> is the integer of the supplied value
  (784 by default), and the layers of the result are those of the left-to-right pass
  \<open>infer_dims\<close> started at \<open>input_size\<close>: a linear layer takes its supplied \<open>in\<close> or
  \<open>prev_out\<close>, its supplied \<open>out\<close> or its \<open>in\<close>, and hands its \<open>out\<close> on; any other
  layer keeps its lower-cased type and leaves \<open>prev_out\<close> alone. The example of the
  specification yields \<open>[{linear,784,128},{relu},{linear,128,10},{softmax}]\<close>, and the
  architecture with capitals yields \<open>[{linear,20,8},{relu},{r\u00e9lu},{linear,8,4}]\<close>: the
  types \<open>Linear\<close>, \<open>ReLU\<close> and \<^verbatim>\<open>R\u00c9LU\<close> are lower-cased, the accented capital included, before
  they are compared with \<open>linear\<close> and stored.
\<close>

theorem validate_architecture_infers:
  "(\<forall>payload spec. validate_architecture payload = Inr spec \<longrightarrow>
      (\<exists>p raw. payload = PDict p \<and> map_of p ''layers'' = Some (PList raw)
         \<and> py_int (dict_get p ''input_size'' (PInt MNIST_INPUT_SIZE)) = Inr (input_size spec)
         \<and> infer_dims (input_size spec) raw = Some (layers spec)))
   \<and> validate_architecture example_architecture
       = Inr \<lparr>input_size = 784,
              layers = [Linear 784 128, Layer ''relu'', Linear 128 10, Layer ''softmax'']\<rparr>
   \<and> validate_architecture mixed_case_architecture
       = Inr \<lparr>input_size = 20,
              layers = [Linear 20 8, Layer ''relu'',
                        Layer [CHR ''r'', CHR 0xE9, CHR ''l'', CHR ''u''], Linear 8 4]\<rparr>"
proof (intro conjI allI impI)
  fix payload spec
  assume "validate_architecture payload = Inr spec"
  from validate_architecture_Inr [OF this]
  show "\<exists>p raw. payload = PDict p \<and> map_of p ''layers'' = Some (PList raw)
         \<and> py_int (dict_get p ''input_size'' (PInt MNIST_INPUT_SIZE)) = Inr (input_size spec)
         \<and> infer_dims (input_size spec) raw = Some (layers spec)"
    by (auto simp: sanitize_layers_infer)
next
  show "validate_architecture example_architecture
       = Inr \<lparr>input_size = 784,
              layers = [Linear 784 128, Layer ''relu'', Linear 128 10, Layer ''softmax'']\<rparr>"
    by (simp add: arch_eval)
next
  show "validate_architecture mixed_case_architecture
       = Inr \<lparr>input_size = 20,
              layers = [Linear 20 8, Layer ''relu'',
                        Layer [CHR ''r'', CHR 0xE9, CHR ''l'', CHR ''u''], Linear 8 4]\<rparr>"
    by (simp add: arch_eval)
qed

text \<open>
  The pass on the layers of the architecture with capitals, from the statement at that
  architecture.
\<close>

theorem validate_architecture_infers_witness:
  "infer_dims 20
     [PDict [(''type'', PStr ''Linear''), (''out'', PInt 8)], PDict [(''type'', PStr ''ReLU'')],
      PDict [(''type'', PStr [CHR ''R'', CHR 0xC9, CHR ''L'', CHR ''U''])],
      PDict [(''out'', PStr '' 4 '')]]
   = Some [Linear 20 8, Layer ''relu'', Layer [CHR ''r'', CHR 0xE9, CHR ''l'', CHR ''u''],
           Linear 8 4]"
proof -
  from validate_architecture_infers
  have "validate_architecture mixed_case_architecture
          = Inr \<lparr>input_size = 20,
              layers = [Linear 20 8, Layer ''relu'',
                        Layer [CHR ''r'', CHR 0xE9, CHR ''l'', CHR ''u''], Linear 8 4]\<rparr>
        \<longrightarrow> (\<exists>p raw. mixed_case_architecture = PDict p \<and> map_of p ''layers'' = Some (PList raw)
             \<and> infer_dims 20 raw
                 = Some [Linear 20 8, Layer ''relu'',
                         Layer [CHR ''r'', CHR 0xE9, CHR ''l'', CHR ''u''], Linear 8 4])"
    by fastforce
  moreover from validate_architecture_infers
  have "validate_architecture mixed_case_architecture
          = Inr \<lparr>input_size = 20,
              layers = [Linear 20 8, Layer ''relu'',
                        Layer [CHR ''r'', CHR 0xE9, CHR ''l'', CHR ''u''], Linear 8 4]\<rparr>"
    by blast
  ultimately show ?thesis
    by (auto simp: mixed_case_architecture_def)
qed

text \<open>
  Claim C5 says that every result has \<open>input_size\<close> at least 1. An \<open>input_size\<close> of 0
  is accepted and returned.
\<close>

theorem validate_architecture_input_size_counterexample:
  "validate_architecture
       (PDict [(''input_size'', PInt 0), (''layers'', PList [PDict [(''type'', PStr ''relu'')]])])
     = Inr \<lparr>input_size = 0, layers = [Layer ''relu'']\<rparr>
   \<and> \<not> 1 \<le> input_size \<lparr>input_size = 0, layers = [Layer ''relu'']\<rparr>"
  by (simp add: arch_eval)

text \<open>
  Claim C5, amended. Every result has a non-empty list of layers, one per raw layer, and
  its \<open>input_size\<close> is the integer the supplied value coerces to (784 when none is
  supplied). No bound on \<open>input_size\<close> is part of it.
\<close>

theorem validate_architecture_result:
  assumes "validate_architecture payload = Inr spec"
  shows "layers spec \<noteq> []
     \<and> (\<exists>p raw. payload = PDict p \<and> map_of p ''layers'' = Some (PList raw)
           \<and> length (layers spec) = length raw
           \<and> py_int (dict_get p ''input_size'' (PInt MNIST_INPUT_SIZE)) = Inr (input_size spec))"
proof -
  from validate_architecture_Inr [OF assms] obtain p raw where
    p: "payload = PDict p" "map_of p ''layers'' = Some (PList raw)" "raw \<noteq> []"
      "py_int (dict_get p ''input_size'' (PInt MNIST_INPUT_SIZE)) = Inr (input_size spec)"
      "sanitize_layers (input_size spec) raw = Inr (layers spec)"
    by blast
  from p(5) have "length (layers spec) = length raw"
    by (simp add: sanitize_layers_infer infer_dims_length)
  with p show ?thesis by auto
qed

text \<open>
  The statement at the example of the specification.
\<close>

theorem validate_architecture_result_witness:
  "layers \<lparr>input_size = 784,
           layers = [Linear 784 128, Layer ''relu'', Linear 128 10, Layer ''softmax'']\<rparr> \<noteq> []
   \<and> validate_architecture example_architecture
       = Inr \<lparr>input_size = 784,
              layers = [Linear 784 128, Layer ''relu'', Linear 128 10, Layer ''softmax'']\<rparr>"
proof -
  have e: "validate_architecture example_architecture
       = Inr \<lparr>input_size = 784,
              layers = [Linear 784 128, Layer ''relu'', Linear 128 10, Layer ''softmax'']\<rparr>"
    by (simp add: arch_eval)
  from validate_architecture_result [OF e] e show ?thesis by blast
qed

text \<open>
  The failures the validator does turn into its \<open>ValueError\<close>: a payload that is not a
  mapping, a \<open>layers\<close> that is missing or falsy, an \<open>input_size\<close> whose coercion raises a
  caught exception, a layer that is not a mapping, and a linear layer with a dimension
  whose coercion raises a caught exception. Every \<open>ValueError\<close> carries one of the five
  messages, or is the error of \<^verbatim>\<open>str\<close> on a type that holds an integer of more than 4300
  digits.
\<close>

lemma validate_architecture_not_mapping:
  "\<not> is_mapping payload \<Longrightarrow> validate_architecture payload = Inl (ValueError E_architecture)"
  by (cases payload) (simp_all add: validate_architecture_def is_mapping_def)

lemma validate_architecture_no_layers:
  "\<not> py_bool (dict_get p ''layers'' PNone) \<Longrightarrow>
   validate_architecture (PDict p) = Inl (ValueError E_layers)"
  by (simp add: validate_architecture_def)

lemma validate_architecture_input_size:
  "py_bool (dict_get p ''layers'' PNone) \<Longrightarrow>
   caught (py_int (dict_get p ''input_size'' (PInt MNIST_INPUT_SIZE))) \<Longrightarrow>
   validate_architecture (PDict p) = Inl (ValueError E_input_size)"
  by (auto simp: validate_architecture_def caught_def reraise_def bind_err_def
      split: sum.splits error.splits)

lemma sanitize_layers_not_mapping:
  "\<not> is_mapping x \<Longrightarrow> sanitize_layers prev (x # rest) = Inl (ValueError E_layer)"
  by (cases x) (simp_all add: is_mapping_def)

lemma sanitize_layers_bad_dims:
  assumes "is_linear layer"
    and "caught (supplied layer ''in'' prev)
     \<or> (\<exists>i. supplied layer ''in'' prev = Inr i \<and> caught (supplied layer ''out'' i))"
  shows "sanitize_layers prev (PDict layer # rest) = Inl (ValueError E_dims)"
proof -
  from assms(1) obtain s where
    s: "py_str (dict_get layer ''type'' (PStr ''linear'')) = Inr s" "lower s = ''linear''"
    by (auto simp: is_linear_def layer_type_of_def bind_err_Inr)
  from assms(2) have
    "reraise E_dims (bind_err (py_int (dict_get layer ''in'' (PInt prev)))
       (\<lambda>i. bind_err (py_int (dict_get layer ''out'' (dict_get layer ''in'' (PInt prev))))
          (\<lambda>out. Inr (i, out)))) = Inl (ValueError E_dims)"
    by (auto simp: supplied_def caught_def dict_get_def reraise_def bind_err_def
        split: sum.splits error.splits option.splits)
  with s show ?thesis by (simp add: Let_def bind_err_def)
qed

lemma reraise_ValueError: "reraise msg r = Inl (ValueError m) \<Longrightarrow> m = msg"
  by (auto simp: reraise_def split: sum.splits error.splits)

lemma sanitize_layers_ValueError:
  "sanitize_layers prev ls = Inl (ValueError m) \<Longrightarrow>
   m = E_layer \<or> m = E_dims \<or> m = E_int_limit"
proof (induction ls arbitrary: prev)
  case Nil
  then show ?case by simp
next
  case (Cons x rest)
  show ?case
  proof (cases x)
    case (PDict layer)
    with Cons.prems Cons.IH show ?thesis
      by (auto simp: Let_def bind_err_Inl split: if_splits
          dest: py_str_error reraise_ValueError)
  qed (use Cons.prems in simp_all)
qed

lemma validate_architecture_ValueError:
  assumes "validate_architecture payload = Inl (ValueError m)"
  shows "m = E_architecture \<or> m = E_layers \<or> m = E_input_size \<or> m = E_layer \<or> m = E_dims
     \<or> m = E_int_limit"
proof (cases payload)
  case (PDict p)
  with assms sanitize_layers_ValueError show ?thesis
    by (cases "dict_get p ''layers'' PNone")
      (auto simp: validate_architecture_def Let_def bind_err_Inl
        split: if_splits dest: reraise_ValueError)
qed (use assms in \<open>simp_all add: validate_architecture_def\<close>)

text \<open>An infinite \<open>input_size\<close> is not caught either: \<^verbatim>\<open>int\<close> raises \<open>OverflowError\<close>.\<close>

lemma validate_architecture_input_size_inf:
  "validate_architecture (PDict [(''input_size'', PFloat PosInf), (''layers'', PList [PDict []])])
     = Inl OverflowError"
  by (simp add: validate_architecture_def dict_get_def reraise_def bind_err_def
      int_of_float_def)

text \<open>
  Claim C4 says that a truthy value of \<open>layers\<close> that is not a sequence yields the
  \<open>ValueError\<close> of the validator and no other failure. On \<^verbatim>\<open>{"layers": 5}\<close> the test
  \<^verbatim>\<open>not layers\<close> passes and the \<^verbatim>\<open>for\<close> loop raises \<open>TypeError\<close>.
\<close>

theorem validate_architecture_layers_not_iterable:
  "validate_architecture (PDict [(''layers'', PInt 5)]) = Inl TypeError"
  by (simp add: arch_eval)

lemma sanitize_layers_append_cong:
  assumes "\<And>q. sanitize_layers q a = sanitize_layers q b"
  shows "sanitize_layers prev (pre @ a) = sanitize_layers prev (pre @ b)"
proof (induction pre arbitrary: prev)
  case Nil
  show ?case by (simp add: assms)
next
  case (Cons x pre)
  show ?case
    by (cases x) (simp_all add: Cons.IH Let_def cong: if_cong)
qed

text \<open>The loop on a list in two parts: the second part starts at the \<open>prev_out\<close> the first leaves.\<close>

lemma last_out_Cons:
  "last_out prev (Linear i out # sl) = last_out out sl"
  "last_out prev (Layer t # sl) = last_out prev sl"
  by (simp_all add: last_out_def)

lemma sanitize_layers_append:
  "sanitize_layers prev pre = Inr sl_pre \<Longrightarrow>
   sanitize_layers (last_out prev sl_pre) rest = Inr sl_rest \<Longrightarrow>
   sanitize_layers prev (pre @ rest) = Inr (sl_pre @ sl_rest)"
proof (induction pre arbitrary: prev sl_pre)
  case Nil
  then show ?case by (simp add: last_out_def)
next
  case (Cons x pre)
  show ?case
  proof (cases x)
    case (PDict layer)
    from Cons.prems(1) obtain t where
      t: "layer_type_of layer = Inr t"
      and step: "if t = ''linear''
         then \<exists>i out ls'. supplied layer ''in'' prev = Inr i \<and> supplied layer ''out'' i = Inr out
                \<and> sanitize_layers out pre = Inr ls' \<and> sl_pre = Linear i out # ls'
         else \<exists>ls'. sanitize_layers prev pre = Inr ls' \<and> sl_pre = Layer t # ls'"
      unfolding PDict sanitize_layers_step by blast
    show ?thesis
    proof (cases "t = ''linear''")
      case True
      with step obtain i out ls' where
        s: "supplied layer ''in'' prev = Inr i" "supplied layer ''out'' i = Inr out"
          "sanitize_layers out pre = Inr ls'" "sl_pre = Linear i out # ls'"
        by auto
      from Cons.prems(2) have "sanitize_layers (last_out out ls') rest = Inr sl_rest"
        by (simp add: s(4) last_out_Cons)
      from Cons.IH [OF s(3) this] have "sanitize_layers out (pre @ rest) = Inr (ls' @ sl_rest)" .
      with t True s have "sanitize_layers prev (PDict layer # pre @ rest) = Inr (sl_pre @ sl_rest)"
        unfolding sanitize_layers_step by simp
      then show ?thesis by (simp add: PDict)
    next
      case False
      with step obtain ls' where
        s: "sanitize_layers prev pre = Inr ls'" "sl_pre = Layer t # ls'"
        by auto
      from Cons.prems(2) have "sanitize_layers (last_out prev ls') rest = Inr sl_rest"
        by (simp add: s(2) last_out_Cons)
      from Cons.IH [OF s(1) this] have "sanitize_layers prev (pre @ rest) = Inr (ls' @ sl_rest)" .
      with t False s have "sanitize_layers prev (PDict layer # pre @ rest) = Inr (sl_pre @ sl_rest)"
        unfolding sanitize_layers_step by simp
      then show ?thesis by (simp add: PDict)
    qed
  qed (use Cons.prems in simp_all)
qed

lemma untyped_type: "map_of layer ''type'' = None \<Longrightarrow> layer_type_of layer = Inr ''linear''"
  by (simp add: layer_type_of_def dict_get_def bind_err_def lower_def lower_char_def
      is_upper_def)

lemma untyped_step:
  assumes "map_of layer ''type'' = None"
  shows "sanitize_layers prev_out (PDict layer # rest)
         = sanitize_layers prev_out (PDict ((''type'', PStr ''linear'') # layer) # rest)"
  using assms by (simp add: dict_get_def Let_def bind_err_def cong: if_cong)

lemma untyped_accepted:
  assumes "map_of layer ''type'' = None"
    and "supplied layer ''in'' prev_out = Inr i" and "supplied layer ''out'' i = Inr out"
  shows "sanitize_layers prev_out (PDict layer # rest)
           = bind_err (sanitize_layers out rest) (\<lambda>ls. Inr (Linear i out # ls))"
proof -
  have lin: "py_str (dict_get layer ''type'' (PStr ''linear'')) = Inr ''linear''"
    "lower ''linear'' = ''linear''"
    using assms(1) by (simp_all add: dict_get_def lower_def lower_char_def is_upper_def)
  from assms(2,3) have "reraise E_dims (bind_err (py_int (dict_get layer ''in'' (PInt prev_out)))
       (\<lambda>i. bind_err (py_int (dict_get layer ''out'' (dict_get layer ''in'' (PInt prev_out))))
          (\<lambda>out. Inr (i, out)))) = Inr (i, out)"
    by (simp add: linear_dims)
  then show ?thesis
    by (simp add: lin Let_def bind_err_def)
qed

text \<open>
  Claim C9. A layer that is a mapping without a \<open>type\<close> key is treated as the same
  mapping with \<^verbatim>\<open>"type": "linear"\<close>, at every position of the loop and in
  \<^verbatim>\<open>validate_architecture\<close> as a whole; when its dimensions coerce it is accepted as
  \<open>Linear i out\<close> with \<open>in\<close> defaulting to \<open>prev_out\<close> and \<open>out\<close> to \<open>in\<close>, and the
  rest of the loop runs with \<open>prev_out = out\<close>. \<^verbatim>\<open>validate_architecture\<close> itself accepts a
  payload that holds such a layer anywhere in its list: when \<open>input_size\<close> coerces to \<open>n\<close>,
  the layers before it are accepted from \<open>n\<close>, its dimensions coerce from the \<open>prev_out\<close>
  those layers leave, and the layers after it are accepted from its \<open>out\<close>, the result is
  the record of \<open>n\<close> and of the accepted layers with \<open>Linear i out\<close> at the position of the
  layer.
\<close>

theorem untyped_layer_is_linear:
  assumes "map_of layer ''type'' = None"
  shows "(\<forall>prev_out rest. sanitize_layers prev_out (PDict layer # rest)
            = sanitize_layers prev_out (PDict ((''type'', PStr ''linear'') # layer) # rest))
     \<and> (\<forall>prev_out rest i out.
           supplied layer ''in'' prev_out = Inr i \<and> supplied layer ''out'' i = Inr out \<longrightarrow>
           sanitize_layers prev_out (PDict layer # rest)
             = bind_err (sanitize_layers out rest) (\<lambda>ls. Inr (Linear i out # ls)))
     \<and> (\<forall>p pre post. map_of p ''layers'' = Some (PList (pre @ PDict layer # post)) \<longrightarrow>
           validate_architecture (PDict p)
             = validate_architecture (PDict (AList.update ''layers''
                 (PList (pre @ PDict ((''type'', PStr ''linear'') # layer) # post)) p)))
     \<and> (\<forall>p pre post n sl_pre i out sl_post.
           map_of p ''layers'' = Some (PList (pre @ PDict layer # post))
           \<and> py_int (dict_get p ''input_size'' (PInt MNIST_INPUT_SIZE)) = Inr n
           \<and> sanitize_layers n pre = Inr sl_pre
           \<and> supplied layer ''in'' (last_out n sl_pre) = Inr i
           \<and> supplied layer ''out'' i = Inr out
           \<and> sanitize_layers out post = Inr sl_post \<longrightarrow>
           validate_architecture (PDict p)
             = Inr \<lparr>input_size = n, layers = sl_pre @ Linear i out # sl_post\<rparr>)"
proof (intro conjI allI impI)
  fix prev_out rest
  show "sanitize_layers prev_out (PDict layer # rest)
            = sanitize_layers prev_out (PDict ((''type'', PStr ''linear'') # layer) # rest)"
    by (rule untyped_step [OF assms])
next
  fix prev_out rest i out
  assume a: "supplied layer ''in'' prev_out = Inr i \<and> supplied layer ''out'' i = Inr out"
  then show "sanitize_layers prev_out (PDict layer # rest)
             = bind_err (sanitize_layers out rest) (\<lambda>ls. Inr (Linear i out # ls))"
    using untyped_accepted [OF assms] by blast
next
  fix p pre post
  assume l: "map_of p ''layers'' = Some (PList (pre @ PDict layer # post))"
  have "\<And>n. sanitize_layers n (pre @ PDict layer # post)
           = sanitize_layers n (pre @ PDict ((''type'', PStr ''linear'') # layer) # post)"
    by (rule sanitize_layers_append_cong) (rule untyped_step [OF assms])
  with l show "validate_architecture (PDict p)
             = validate_architecture (PDict (AList.update ''layers''
                 (PList (pre @ PDict ((''type'', PStr ''linear'') # layer) # post)) p))"
    by (simp add: validate_architecture_def dict_get_def AList.update_conv' Let_def bind_err_def)
next
  fix p pre post n sl_pre i out sl_post
  assume a: "map_of p ''layers'' = Some (PList (pre @ PDict layer # post))
           \<and> py_int (dict_get p ''input_size'' (PInt MNIST_INPUT_SIZE)) = Inr n
           \<and> sanitize_layers n pre = Inr sl_pre
           \<and> supplied layer ''in'' (last_out n sl_pre) = Inr i
           \<and> supplied layer ''out'' i = Inr out
           \<and> sanitize_layers out post = Inr sl_post"
  then have "sanitize_layers (last_out n sl_pre) (PDict layer # post)
               = Inr (Linear i out # sl_post)"
    using untyped_accepted [OF assms, of "last_out n sl_pre" i out post]
    by (simp add: bind_err_def)
  with a have "sanitize_layers n (pre @ PDict layer # post)
                 = Inr (sl_pre @ Linear i out # sl_post)"
    using sanitize_layers_append by blast
  with a show "validate_architecture (PDict p)
             = Inr \<lparr>input_size = n, layers = sl_pre @ Linear i out # sl_post\<rparr>"
    using validate_architecture_accepts [of p "pre @ PDict layer # post" n] by simp
qed

text \<open>
  The statement at the payload \<^verbatim>\<open>{"input_size": "16", "layers": [{"type": "ReLU"},
  {"out": 3}, {"type": "linear"}]}\<close>: the layer without a type is accepted as
  \<open>{linear,16,3}\<close> and hands its \<open>out\<close> on.
\<close>

theorem untyped_layer_is_linear_witness:
  "validate_architecture
       (PDict [(''input_size'', PStr ''16''),
               (''layers'', PList [PDict [(''type'', PStr ''ReLU'')], PDict [(''out'', PInt 3)],
                                   PDict [(''type'', PStr ''linear'')]])])
     = Inr \<lparr>input_size = 16, layers = [Layer ''relu'', Linear 16 3, Linear 3 3]\<rparr>
   \<and> validate_architecture (PDict [(''layers'', PList [PDict [(''out'', PInt 3)]])])
     = validate_architecture
         (PDict [(''layers'', PList [PDict [(''type'', PStr ''linear''), (''out'', PInt 3)]])])
   \<and> sanitize_layers 784 [PDict [(''out'', PInt 3)]] = Inr [Linear 784 3]"
proof -
  let ?p = "[(''input_size'', PStr ''16''),
             (''layers'', PList [PDict [(''type'', PStr ''ReLU'')], PDict [(''out'', PInt 3)],
                                 PDict [(''type'', PStr ''linear'')]])]"
  have 1: "map_of [(''out'', PInt 3)] ''type'' = None" by simp
  have 2: "supplied [(''out'', PInt 3)] ''in'' 784 = Inr 784
           \<and> supplied [(''out'', PInt 3)] ''out'' 784 = Inr 3"
    by (simp add: supplied_def)
  have 3: "map_of [(''layers'', PList [PDict [(''out'', PInt 3)]])] ''layers''
           = Some (PList ([] @ PDict [(''out'', PInt 3)] # []))" by simp
  have 4: "map_of ?p ''layers''
             = Some (PList ([PDict [(''type'', PStr ''ReLU'')]] @ PDict [(''out'', PInt 3)]
                              # [PDict [(''type'', PStr ''linear'')]]))
           \<and> py_int (dict_get ?p ''input_size'' (PInt MNIST_INPUT_SIZE)) = Inr 16
           \<and> sanitize_layers 16 [PDict [(''type'', PStr ''ReLU'')]] = Inr [Layer ''relu'']
           \<and> supplied [(''out'', PInt 3)] ''in'' (last_out 16 [Layer ''relu'']) = Inr 16
           \<and> supplied [(''out'', PInt 3)] ''out'' 16 = Inr 3
           \<and> sanitize_layers 3 [PDict [(''type'', PStr ''linear'')]] = Inr [Linear 3 3]"
    by (simp add: supplied_def last_out_def str_eval dict_eval)
  from untyped_layer_is_linear [OF 1] 2
  have a: "sanitize_layers 784 (PDict [(''out'', PInt 3)] # [])
           = bind_err (sanitize_layers 3 []) (\<lambda>ls. Inr (Linear 784 3 # ls))"
    by blast
  from untyped_layer_is_linear [OF 1] 3
  have b: "validate_architecture (PDict [(''layers'', PList [PDict [(''out'', PInt 3)]])])
     = validate_architecture (PDict (AList.update ''layers''
          (PList ([] @ PDict ((''type'', PStr ''linear'') # [(''out'', PInt 3)]) # []))
          [(''layers'', PList [PDict [(''out'', PInt 3)]])]))"
    by blast
  from untyped_layer_is_linear [OF 1] 4
  have c: "validate_architecture (PDict ?p)
     = Inr \<lparr>input_size = 16, layers = [Layer ''relu''] @ Linear 16 3 # [Linear 3 3]\<rparr>"
    by blast
  from a b c show ?thesis by (simp add: bind_err_def)
qed

subsection \<open>\<^verbatim>\<open>prepare_dataloaders\<close>: sizes\<close>

lemma ipow_powi: "ipow b e = of_nat b powi e"
  by (simp add: ipow_def power_int_def power_inverse inverse_eq_divide power_one_over)

lemma ipow_pos: "0 < b \<Longrightarrow> 0 < ipow b e"
  by (simp add: ipow_powi zero_less_power_int)

lemma ipow_add: "0 < b \<Longrightarrow> ipow b (d + e) = ipow b d * ipow b e"
  by (simp add: ipow_powi power_int_add)

lemma ipow_minus: "ipow b (- e) = 1 / ipow b e"
  by (simp add: ipow_powi power_int_minus inverse_eq_divide)

lemma ipow_one: "ipow b 1 = of_nat b"
  by (simp add: ipow_def)

lemma ipow_zero: "ipow b 0 = 1"
  by (simp add: ipow_def)

lemma ipow_mono: "1 \<le> b \<Longrightarrow> d \<le> e \<Longrightarrow> ipow b d \<le> ipow b e"
  by (simp add: ipow_powi power_int_increasing)

lemma ipow_less_cancel: "2 \<le> b \<Longrightarrow> ipow b d < ipow b e \<Longrightarrow> d < e"
proof (rule ccontr)
  assume b: "2 \<le> b" and l: "ipow b d < ipow b e" and "\<not> d < e"
  then have "e \<le> d" by simp
  with b have "ipow b e \<le> ipow b d" by (simp add: ipow_mono)
  with l show False by simp
qed

lemma floor_log_bounds:
  "2 \<le> b \<Longrightarrow> 1 \<le> a \<Longrightarrow>
   0 \<le> floor_log b a \<and> ipow b (floor_log b a) \<le> a \<and> a < ipow b (floor_log b a + 1)"
proof (induction b a rule: floor_log.induct)
  case (1 b a)
  show ?case
  proof (cases "a < of_nat b")
    case True
    then have "floor_log b a = 0" by (simp add: floor_log.simps)
    with True "1.prems" show ?thesis by (simp add: ipow_one ipow_zero)
  next
    case False
    let ?k = "floor_log b (a / of_nat b)"
    from False "1.prems" have f: "floor_log b a = 1 + ?k"
      by (subst floor_log.simps) simp
    have bpos: "(0::rat) < of_nat b" using "1.prems" by simp
    from False bpos have "1 \<le> a / of_nat b" by (simp add: le_divide_eq)
    with "1.IH" False "1.prems" have
      IH: "0 \<le> ?k" "ipow b ?k \<le> a / of_nat b" "a / of_nat b < ipow b (?k + 1)"
      by simp_all
    have b0: "0 < b" using "1.prems" by simp
    have "ipow b (1 + ?k) = of_nat b * ipow b ?k"
      by (simp add: ipow_add [OF b0] ipow_one)
    also have "\<dots> \<le> a" using IH(2) bpos by (simp add: le_divide_eq mult.commute)
    finally have lo: "ipow b (1 + ?k) \<le> a" .
    have "a < ipow b (?k + 1) * of_nat b" using IH(3) bpos by (simp add: divide_less_eq)
    also have "\<dots> = ipow b ((?k + 1) + 1)"
      by (simp only: ipow_add [OF b0] ipow_one)
    finally have "a < ipow b ((?k + 1) + 1)" .
    then have hi: "a < ipow b (1 + ?k + 1)" by (simp add: add.commute)
    from IH(1) lo hi show ?thesis by (simp add: f)
  qed
qed

lemma ilog_bounds:
  assumes "0 < a"
  shows "ipow 2 (ilog 2 a) \<le> a \<and> a < ipow 2 (ilog 2 a + 1)"
proof (cases "1 \<le> a")
  case True
  then show ?thesis using floor_log_bounds [of 2 a] by (simp add: ilog_def)
next
  case False
  let ?k = "floor_log 2 (1 / a)"
  from False assms have "1 \<le> 1 / a" by (simp add: le_divide_eq)
  from floor_log_bounds [OF _ this] have
    k: "ipow 2 ?k \<le> 1 / a" "1 / a < ipow 2 (?k + 1)" by simp_all
  have p: "0 < ipow 2 ?k" "0 < ipow 2 (?k + 1)" by (simp_all add: ipow_pos)
  show ?thesis
  proof (cases "ipow 2 ?k = 1 / a")
    case True
    then have i: "ilog 2 a = - ?k" using False by (simp add: ilog_def Let_def)
    from True have e: "ipow 2 (- ?k) = a" by (simp add: ipow_minus)
    have "ipow 2 (- ?k + 1) = ipow 2 (- ?k) * ipow 2 1"
      by (rule ipow_add) simp
    then have "ipow 2 (- ?k + 1) = a * 2"
      by (simp add: e ipow_one)
    with assms e show ?thesis by (simp add: i)
  next
    case neq: False
    then have i: "ilog 2 a = - ?k - 1" using False by (simp add: ilog_def Let_def)
    from neq k(1) have "ipow 2 ?k < 1 / a" by simp
    with assms p(1) have "a < 1 / ipow 2 ?k"
      by (simp add: field_simps)
    then have hi: "a < ipow 2 (- ?k - 1 + 1)" by (simp add: ipow_minus)
    from k(2) assms p(2) have "1 / ipow 2 (?k + 1) < a"
      by (simp add: field_simps)
    then have "ipow 2 (- (?k + 1)) < a" by (simp only: ipow_minus)
    then have lo: "ipow 2 (- ?k - 1) \<le> a" by simp
    from lo hi show ?thesis by (simp add: i)
  qed
qed

lemma rhe_le_floor: "round_half_even y \<le> \<lfloor>y\<rfloor> + 1"
  by (simp add: round_half_even_def Let_def)

lemma rhe_nonneg: "0 \<le> y \<Longrightarrow> 0 \<le> round_half_even y"
  by (simp add: round_half_even_def Let_def)

lemma rhe_le: "y < of_int N \<Longrightarrow> round_half_even y \<le> N"
proof -
  assume "y < of_int N"
  then have "\<lfloor>y\<rfloor> < N" by (simp add: floor_less_iff)
  with rhe_le_floor [of y] show ?thesis by simp
qed

lemma rhe_le_half: "y < of_int N - 1 / 2 \<Longrightarrow> round_half_even y \<le> N - 1"
proof -
  assume y: "y < of_int N - 1 / 2"
  then have "y < of_int N" by simp
  then have f: "\<lfloor>y\<rfloor> \<le> N - 1" by (simp add: floor_less_iff)
  show ?thesis
  proof (cases "\<lfloor>y\<rfloor> = N - 1")
    case True
    with y have "y - of_int \<lfloor>y\<rfloor> < 1 / 2" by simp
    then show ?thesis using True by (simp add: round_half_even_def Let_def)
  next
    case False
    with f have "\<lfloor>y\<rfloor> + 1 \<le> N - 1" by simp
    with rhe_le_floor [of y] show ?thesis by simp
  qed
qed

text \<open>
  A magnitude below the overflow bound rounds to a finite double below that bound: the
  largest finite double is \<open>(2 ^ 53 - 1) * 2 ^ 971\<close>.
\<close>

lemma round_double_bounded:
  assumes "\<bar>q\<bar> < dbl_overflow"
  shows "\<exists>x. magnitude (round_double q) = Some x \<and> 0 \<le> x \<and> x < dbl_overflow"
proof -
  define a where "a = \<bar>q\<bar>"
  define e where "e = (if a < ipow 2 (- 1022) then - 1074 else ilog 2 a - 52)"
  define m where "m = round_half_even (a / ipow 2 e)"
  have p: "0 < ipow 2 e" by (simp add: ipow_pos)
  have a0: "0 \<le> a" by (simp add: a_def)
  have m0: "0 \<le> m" unfolding m_def using a0 p by (intro rhe_nonneg) simp
  have lt: "a < dbl_overflow" using assms by (simp add: a_def)
  have rd: "round_double q =
      (if m = 0 then (if q < 0 then NegZero else Finite 0)
       else Finite ((if q < 0 then - 1 else 1) * of_int m * ipow 2 e))"
    using lt unfolding round_double_def Let_def a_def [symmetric] e_def [symmetric]
      m_def [symmetric] by simp
  have mag: "magnitude (round_double q) = Some (of_int m * ipow 2 e)"
    using m0 p by (auto simp: rd magnitude_def abs_mult)
  have bound: "of_int m * ipow 2 e < dbl_overflow"
  proof (cases "a < ipow 2 (- 1022)")
    case True
    then have e: "e = - 1074" by (simp add: e_def)
    have "(of_int m :: rat) \<le> of_int (\<lfloor>a / ipow 2 e\<rfloor> + 1)"
      unfolding m_def using rhe_le_floor [of "a / ipow 2 e"] by (simp only: of_int_le_iff)
    also have "\<dots> \<le> a / ipow 2 e + 1" by simp
    finally have "of_int m * ipow 2 e \<le> (a / ipow 2 e + 1) * ipow 2 e"
      using p by (intro mult_right_mono) simp_all
    also have "\<dots> = a + ipow 2 e" using p by (simp add: field_simps)
    also have "\<dots> < ipow 2 (- 1022) + ipow 2 (- 1074)" using True e by simp
    also have "\<dots> < dbl_overflow" by (simp add: ipow_def dbl_overflow_def)
    finally show ?thesis .
  next
    case False
    define k where "k = ilog 2 a"
    from False have e: "e = k - 52" by (simp add: e_def k_def)
    have "0 < ipow 2 (- 1022)" by (simp add: ipow_pos)
    with False have apos: "0 < a" by simp
    from ilog_bounds [OF apos] have lo: "ipow 2 k \<le> a" and hi: "a < ipow 2 (k + 1)"
      by (simp_all add: k_def)
    have "ipow 2 (e + 53) = ipow 2 e * ipow 2 53" by (rule ipow_add) simp
    then have split: "ipow 2 (k + 1) = ipow 2 e * ipow 2 53" by (simp add: e add.commute)
    from hi split p have y53: "a / ipow 2 e < ipow 2 53"
      by (simp add: divide_less_eq mult.commute)
    have "dbl_overflow < ipow 2 1024" by (simp add: ipow_def dbl_overflow_def)
    with lo lt have "ipow 2 k < ipow 2 1024" by simp
    then have k1024: "k < 1024" by (rule ipow_less_cancel [rotated]) simp
    show ?thesis
    proof (cases "k = 1023")
      case True
      then have e971: "ipow 2 e = 2 ^ 971" by (simp add: e ipow_def)
      from lt have "a / 2 ^ 971 < dbl_overflow / 2 ^ 971"
        by (simp add: divide_strict_right_mono)
      also have "dbl_overflow / 2 ^ 971 = of_int (2 ^ 53) - 1 / 2"
        by (simp add: dbl_overflow_def)
      finally have "m \<le> 2 ^ 53 - 1"
        unfolding m_def e971 by (rule rhe_le_half)
      then have "(of_int m :: rat) \<le> of_int (2 ^ 53 - 1)" by (simp only: of_int_le_iff)
      then have "of_int m * ipow 2 e \<le> of_int (2 ^ 53 - 1) * (2 ^ 971 :: rat)"
        unfolding e971 by (intro mult_right_mono) simp_all
      also have "\<dots> < dbl_overflow" by (simp add: dbl_overflow_def)
      finally show ?thesis .
    next
      case False
      with k1024 have k: "k + 1 \<le> 1023" by simp
      have "ipow 2 53 = of_int (2 ^ 53)" by (simp add: ipow_def)
      with y53 have "m \<le> 2 ^ 53" unfolding m_def by (intro rhe_le) simp
      then have "(of_int m :: rat) \<le> of_int (2 ^ 53)" by (simp only: of_int_le_iff)
      also have "\<dots> = ipow 2 53" by (simp add: ipow_def)
      finally have "of_int m * ipow 2 e \<le> ipow 2 53 * ipow 2 e"
        using p by (intro mult_right_mono) simp_all
      also have "\<dots> = ipow 2 (k + 1)" by (simp add: split)
      also have "\<dots> \<le> ipow 2 1023" using k by (intro ipow_mono) simp_all
      also have "\<dots> < dbl_overflow" by (simp add: ipow_def dbl_overflow_def)
      finally show ?thesis .
    qed
  qed
  from mag bound m0 p show ?thesis by simp
qed

lemma round_double_finite:
  "\<bar>q\<bar> < dbl_overflow \<Longrightarrow> round_double q = NegZero \<or> (\<exists>x. round_double q = Finite x)"
  by (simp add: round_double_def Let_def)

lemma float_value_neg:
  "f = NegZero \<or> (\<exists>x. f = Finite x) \<Longrightarrow> \<exists>q. float_value (float_neg f) = Some q"
  by (auto simp: float_value_def float_neg_def)

text \<open>The product of a finite double below the bound and a factor of magnitude at most 1.\<close>

lemma float_mul_finite:
  assumes "magnitude f = Some x" and "0 \<le> x" and "x < dbl_overflow" and "\<bar>r\<bar> \<le> 1"
  shows "\<exists>q. float_value (float_mul f (Finite r)) = Some q"
proof -
  from assms(1) have n: "f \<noteq> NaN" by (auto simp: magnitude_def)
  have "x * \<bar>r\<bar> \<le> x * 1" using assms(2,4) by (intro mult_left_mono) simp_all
  with assms(2,3) have "\<bar>x * \<bar>r\<bar>\<bar> < dbl_overflow" by (simp add: abs_mult)
  from round_double_finite [OF this] have
    c: "round_double (x * \<bar>r\<bar>) = NegZero \<or> (\<exists>y. round_double (x * \<bar>r\<bar>) = Finite y)" .
  then have "\<exists>q. float_value (round_double (x * \<bar>r\<bar>)) = Some q"
    by (auto simp: float_value_def)
  with float_value_neg [OF c] n assms(1) show ?thesis
    by (simp add: float_mul_def magnitude_def Let_def)
qed

lemma int_of_float_Inr:
  "int_of_float f = Inr k \<longleftrightarrow>
     (\<exists>q. float_value f = Some q \<and> k = (if 0 \<le> q then \<lfloor>q\<rfloor> else \<lceil>q\<rceil>))"
  by (cases f) (auto simp: int_of_float_def float_value_def)

lemma max_one_trunc: "max 1 (if 0 \<le> q then \<lfloor>q\<rfloor> else \<lceil>q\<rceil>) = max 1 \<lfloor>q::rat\<rfloor>"
proof (cases "0 \<le> q")
  case True
  then show ?thesis by simp
next
  case False
  then have "\<lceil>q\<rceil> \<le> 0" and "\<lfloor>q\<rfloor> \<le> 0"
    by (simp_all add: ceiling_le_iff floor_le_iff)
  with False show ?thesis by simp
qed

lemma floor_numeral_div: "\<lfloor>(numeral a :: rat) / numeral b\<rfloor> = numeral a div numeral b"
  using floor_divide_of_int_eq [of "numeral a" "numeral b", where ?'a = rat] by simp

lemmas float_eval =
  float_mul_def magnitude_def sign_bit_def float_neg_def int_of_float_def round_double_def
  ilog_def floor_log.simps ipow_def round_half_even_def dbl_overflow_def Let_def
  floor_numeral_div

text \<open>
  The doubles of \<open>1/3\<close>, \<open>0.29\<close> and \<open>0.9\<close>, and two products that round upwards and one that
  rounds downwards: \<open>6 * 0.3333333333333333\<close> is \<open>2.0\<close>, \<open>100 * 0.29\<close> is below \<open>29\<close> and
  \<open>4096 * 0.9\<close> is \<open>3686.4\<close> to the nearest double.
\<close>

lemma round_double_third:
  "round_double (1 / 3) = Finite (6004799503160661 / 18014398509481984)
   \<and> float_mul (Finite 6) (round_double (1 / 3)) = Finite 2
   \<and> \<lfloor>6 * (6004799503160661 / 18014398509481984) :: rat\<rfloor> = 1"
  by (simp add: float_eval)

text \<open>
  Claim C6. Whenever the size computation of \<^verbatim>\<open>prepare_dataloaders\<close> returns, the total is
  \<open>max(max_samples or 4096, batch_size * 2)\<close> raised to at least 2; the product
  \<open>total * train_split\<close>, the double nearest to the exact product of the double of the total
  and the split, is finite and \<open>train_len\<close> is \<open>max(1, floor)\<close> of it, or \<open>total - 1\<close> when
  that would reach the total; \<open>val_len\<close> is \<open>max(1, total - train_len)\<close>; the two lengths
  add up to the total and both are at least 1. The computation returns for every
  \<open>train_split\<close> between \<open>-1\<close> and \<open>1\<close> and every total below the overflow bound of the
  floats.
\<close>

theorem prepare_dataloaders_sizes:
  "(prepare_dataloaders_lens batch_sz split max_n = Inr (total_n, train_len, val_len) \<longrightarrow>
      total_n = max 2 (max (or_default max_n (max_samples DEFAULT_HYPERPARAMS)) (batch_sz * 2))
      \<and> (\<exists>len_f q. py_float (PInt total_n) = Inr len_f
             \<and> float_value (float_mul len_f split) = Some q
             \<and> train_len = (if total_n \<le> max 1 \<lfloor>q\<rfloor> then total_n - 1 else max 1 \<lfloor>q\<rfloor>))
      \<and> val_len = max 1 (total_n - train_len)
      \<and> train_len + val_len = total_n \<and> 1 \<le> train_len \<and> 1 \<le> val_len)
   \<and> (\<bar>r\<bar> \<le> 1
        \<and> of_int (max 2 (max (or_default max_n (max_samples DEFAULT_HYPERPARAMS)) (batch_sz * 2)))
            < dbl_overflow \<longrightarrow>
        (\<exists>res. prepare_dataloaders_lens batch_sz (Finite r) max_n = Inr res))"
proof (rule conjI; rule impI)
  define t where "t = max 2 (max (or_default max_n (max_samples DEFAULT_HYPERPARAMS)) (batch_sz * 2))"
  assume "prepare_dataloaders_lens batch_sz split max_n = Inr (total_n, train_len, val_len)"
  then obtain len_f q where tot: "total_n = t"
    and lf: "py_float (PInt t) = Inr len_f"
    and q: "float_value (float_mul len_f split) = Some q"
    and tl: "train_len = (if t \<le> max 1 \<lfloor>q\<rfloor> then t - 1 else max 1 \<lfloor>q\<rfloor>)"
    and vl: "val_len = max 1 (t - train_len)"
    unfolding prepare_dataloaders_lens_def Let_def t_def [symmetric]
    by (auto simp: bind_err_Inr int_of_float_Inr max_one_trunc simp del: py_float.simps)
  have t2: "2 \<le> t" by (simp add: t_def)
  from tl t2 have b: "1 \<le> train_len \<and> train_len \<le> t - 1"
    by (auto split: if_splits)
  with vl have "val_len = t - train_len" by simp
  with b tot lf q tl vl
  show "total_n = max 2 (max (or_default max_n (max_samples DEFAULT_HYPERPARAMS)) (batch_sz * 2))
      \<and> (\<exists>len_f q. py_float (PInt total_n) = Inr len_f
             \<and> float_value (float_mul len_f split) = Some q
             \<and> train_len = (if total_n \<le> max 1 \<lfloor>q\<rfloor> then total_n - 1 else max 1 \<lfloor>q\<rfloor>))
      \<and> val_len = max 1 (total_n - train_len)
      \<and> train_len + val_len = total_n \<and> 1 \<le> train_len \<and> 1 \<le> val_len"
    unfolding t_def [symmetric] by auto
next
  define t where "t = max 2 (max (or_default max_n (max_samples DEFAULT_HYPERPARAMS)) (batch_sz * 2))"
  assume a: "\<bar>r\<bar> \<le> 1
        \<and> of_int (max 2 (max (or_default max_n (max_samples DEFAULT_HYPERPARAMS)) (batch_sz * 2)))
            < dbl_overflow"
  then have r: "\<bar>r\<bar> \<le> 1" and lt: "(of_int t :: rat) < dbl_overflow"
    by (simp_all add: t_def)
  have t2: "2 \<le> t" by (simp add: t_def)
  then have tpos: "(0::rat) \<le> of_int t" by simp
  with lt have al: "\<bar>of_int t :: rat\<bar> < dbl_overflow" by simp
  then have lf: "py_float (PInt t) = Inr (round_double (of_int t))" by simp
  from round_double_bounded [OF al] obtain x where
    x: "magnitude (round_double (of_int t)) = Some x" "0 \<le> x" "x < dbl_overflow" by blast
  from float_mul_finite [OF x r] obtain q where
    "float_value (float_mul (round_double (of_int t)) (Finite r)) = Some q" ..
  then obtain k where "int_of_float (float_mul (round_double (of_int t)) (Finite r)) = Inr k"
    using int_of_float_Inr by blast
  with lf show "\<exists>res. prepare_dataloaders_lens batch_sz (Finite r) max_n = Inr res"
    unfolding prepare_dataloaders_lens_def Let_def t_def [symmetric]
    by (simp add: bind_err_def del: py_float.simps)
qed

text \<open>
  The statement at batch size 3, split \<open>0.3333333333333333\<close> and 6 samples, where the rounded
  product is \<open>2.0\<close> and the exact one is below 2; at batch size 50, split \<open>0.29\<close> and 100
  samples, where the product is below 29; and at batch size 64 and split \<open>0.9\<close> with
  \<open>max_samples\<close> 0 and \<^verbatim>\<open>None\<close>, which \<^verbatim>\<open>or\<close> replaces by the default 4096.
\<close>

theorem prepare_dataloaders_sizes_witness:
  "prepare_dataloaders_lens 3 (round_double (1 / 3)) (Some 6) = Inr (6, 2, 4)
   \<and> prepare_dataloaders_lens 50 (round_double (29 / 100)) (Some 100) = Inr (100, 28, 72)
   \<and> prepare_dataloaders_lens 64 (round_double (9 / 10)) (Some 0) = Inr (4096, 3686, 410)
   \<and> prepare_dataloaders_lens 64 (round_double (9 / 10)) None = Inr (4096, 3686, 410)
   \<and> 4096 = max 2 (max (or_default (Some 0) (max_samples DEFAULT_HYPERPARAMS)) (64 * 2))
   \<and> (\<exists>len_f q. py_float (PInt 6) = Inr len_f
         \<and> float_value (float_mul len_f (round_double (1 / 3))) = Some q
         \<and> 2 = (if 6 \<le> max 1 \<lfloor>q\<rfloor> then 6 - 1 else max 1 \<lfloor>q\<rfloor>))
   \<and> 2 + 4 = (6 :: int)
   \<and> (\<exists>res. prepare_dataloaders_lens 64 (Finite (9 / 10)) None = Inr res)"
proof -
  have e1: "prepare_dataloaders_lens 3 (round_double (1 / 3)) (Some 6) = Inr (6, 2, 4)"
    by (simp add: prepare_dataloaders_lens_def or_default_def DEFAULT_HYPERPARAMS_def
        bind_err_def float_eval)
  have e2: "prepare_dataloaders_lens 50 (round_double (29 / 100)) (Some 100) = Inr (100, 28, 72)"
    by (simp add: prepare_dataloaders_lens_def or_default_def DEFAULT_HYPERPARAMS_def
        bind_err_def float_eval)
  have e3: "prepare_dataloaders_lens 64 (round_double (9 / 10)) (Some 0) = Inr (4096, 3686, 410)"
    by (simp add: prepare_dataloaders_lens_def or_default_def DEFAULT_HYPERPARAMS_def
        bind_err_def float_eval)
  have e4: "prepare_dataloaders_lens 64 (round_double (9 / 10)) None = Inr (4096, 3686, 410)"
    by (simp add: prepare_dataloaders_lens_def or_default_def DEFAULT_HYPERPARAMS_def
        bind_err_def float_eval)
  have h: "\<bar>9 / 10 :: rat\<bar> \<le> 1
        \<and> of_int (max 2 (max (or_default None (max_samples DEFAULT_HYPERPARAMS)) (64 * 2)))
            < dbl_overflow"
    by (simp add: or_default_def DEFAULT_HYPERPARAMS_def dbl_overflow_def)
  from prepare_dataloaders_sizes [of 3 "round_double (1 / 3)" "Some 6" 6 2 4 0] e1
  have a: "\<exists>len_f q. py_float (PInt 6) = Inr len_f
         \<and> float_value (float_mul len_f (round_double (1 / 3))) = Some q
         \<and> 2 = (if 6 \<le> max 1 \<lfloor>q\<rfloor> then 6 - 1 else max 1 \<lfloor>q\<rfloor>)"
    by blast
  from prepare_dataloaders_sizes [of 64 "round_double (9 / 10)" "Some 0" 4096 3686 410 0] e3
  have b: "4096 = max 2 (max (or_default (Some 0) (max_samples DEFAULT_HYPERPARAMS)) (64 * 2))"
    by blast
  from prepare_dataloaders_sizes [of 64 "Finite (9 / 10)" None 0 0 0 "9 / 10"] h
  have c: "\<exists>res. prepare_dataloaders_lens 64 (Finite (9 / 10)) None = Inr res"
    by blast
  from e1 e2 e3 e4 a b c show ?thesis by simp
qed

subsection \<open>\<^verbatim>\<open>prepare_dataloaders\<close>: the seed\<close>

text \<open>
  Claim C8. With a seed, neither the synthesised data nor the result of
  \<^verbatim>\<open>prepare_dataloaders\<close> (the two datasets of the split, the batch size, the shuffle flag
  and the generator state the loaders draw from) depends on the states of the generators
  the call creates: both generators are re-seeded before their first use. Two calls with
  the same seed and arguments therefore agree.
\<close>

theorem prepare_dataloaders_seeded:
  "synthetic_dataset lib fresh1 n_samples input_sz (Some s)
     = synthetic_dataset lib fresh1' n_samples input_sz (Some s)
   \<and> prepare_dataloaders lib fresh1 fresh2 batch_sz split shuffle_flag max_n (Some s)
     = prepare_dataloaders lib fresh1' fresh2' batch_sz split shuffle_flag max_n (Some s)"
  by (simp add: prepare_dataloaders_def synthetic_dataset_def new_generator_def)

text \<open>
  Without a seed the data does depend on the state of the new generator: here a library in
  which a tensor is the generator state it was drawn from.
\<close>

lemma synthetic_dataset_unseeded:
  "synthetic_dataset
     \<lparr>manual_seed = (\<lambda>s. s), rand = (\<lambda>n m g. (g, g + 1)), randint = (\<lambda>lo hi n g. (g, g + 1)),
      random_split = (\<lambda>d ls g. ((d, d), g + 1))\<rparr> 0 2 784 None
   \<noteq> synthetic_dataset
     \<lparr>manual_seed = (\<lambda>s. s), rand = (\<lambda>n m g. (g, g + 1)), randint = (\<lambda>lo hi n g. (g, g + 1)),
      random_split = (\<lambda>d ls g. ((d, d), g + 1))\<rparr> (1::int) 2 784 None"
  by (simp add: synthetic_dataset_def new_generator_def)

end
